theory Spec2Isabelle
  imports Main "HOL-Library.AList" "HOL-Library.Sublist"
begin

section \<open>Python values, exceptions and the helpers of the data model\<close>

text \<open>
  The checkpointer \<open>AerospikeSaver\<close> (saver.py) stores Python values in the bins of
  Aerospike records. The values the code inspects are modelled by \<open>pyval\<close>: \<open>None\<close>,
  integers, \<open>str\<close>, \<open>bytes\<close>, lists and dicts with \<open>str\<close> keys (an association list,
  in insertion order). Booleans and floats are left out of the model.

  \<open>PJson v\<close> is the \<open>str\<close> that \<open>json.dumps(v)\<close> returns: JSON text is kept abstract,
  as the document it denotes, and \<open>json.loads\<close> gives the document back. Every other
  \<open>str\<close> is a \<open>PStr\<close>, which \<open>json.loads\<close> rejects. Python's \<open>==\<close> on these values is
  HOL's equality.

  Where the model is narrower than Python: \<open>json.loads\<close> also parses \<open>bytes\<close> that hold
  JSON text, and the model lets \<open>PBytes\<close> raise (\<open>put\<close> stores a \<open>str\<close>); \<open>==\<close> on dicts
  ignores the order of the items, and HOL's equality on association lists does not.
\<close>

datatype pyval =
    PNone
  | PInt int
  | PStr string
  | PBytes string
  | PJson pyval
  | PList "pyval list"
  | PDict "(string \<times> pyval) list"

type_synonym dict = "(string \<times> pyval) list"

text \<open>A backend key is the triple (namespace, set, user key) the client takes.\<close>

type_synonym key = "string \<times> string \<times> string"

datatype backend_op = OpGet | OpPut

text \<open>
  The exceptions the code raises or lets through. \<open>RuntimeError op key\<close> is the
  \<open>RuntimeError\<close> of \<open>_put\<close> and \<open>_get\<close>, whose message names the operation and the key.
\<close>

datatype exn =
    ValueError
  | TypeError
  | AttributeError
  | KeyError
  | JSONDecodeError
  | RuntimeError backend_op key
  | SerdeError

text \<open>\<open>ebind\<close> sequences a step that may raise with the rest of the function body.\<close>

definition ebind :: "exn + 'a \<Rightarrow> ('a \<Rightarrow> exn + 'b) \<Rightarrow> exn + 'b" where
  "ebind m f = (case m of Inl e \<Rightarrow> Inl e | Inr x \<Rightarrow> f x)"

text \<open>Truthiness (\<open>if x\<close>, \<open>not x\<close>, \<open>x or y\<close>).\<close>

fun truthy :: "pyval \<Rightarrow> bool" where
  "truthy PNone = False"
| "truthy (PInt i) = (i \<noteq> 0)"
| "truthy (PStr s) = (s \<noteq> [])"
| "truthy (PBytes b) = (b \<noteq> [])"
| "truthy (PJson v) = True"
| "truthy (PList xs) = (xs \<noteq> [])"
| "truthy (PDict kvs) = (kvs \<noteq> [])"

definition py_or :: "pyval \<Rightarrow> pyval \<Rightarrow> pyval" where
  "py_or a b = (if truthy a then a else b)"

text \<open>\<open>isinstance(x, str)\<close>.\<close>

fun is_str :: "pyval \<Rightarrow> bool" where
  "is_str (PStr s) = True"
| "is_str (PJson v) = True"
| "is_str v = False"

text \<open>\<open>d.get(k)\<close> and \<open>d.get(k, default)\<close> on a dict, \<open>k in d\<close>, \<open>d[k] = v\<close>.\<close>

definition dict_get :: "dict \<Rightarrow> string \<Rightarrow> pyval" where
  "dict_get d k = (case map_of d k of None \<Rightarrow> PNone | Some v \<Rightarrow> v)"

definition dict_get_default :: "dict \<Rightarrow> string \<Rightarrow> pyval \<Rightarrow> pyval" where
  "dict_get_default d k dflt = (case map_of d k of None \<Rightarrow> dflt | Some v \<Rightarrow> v)"

definition dict_has :: "dict \<Rightarrow> string \<Rightarrow> bool" where
  "dict_has d k = (map_of d k \<noteq> None)"

definition dict_set :: "dict \<Rightarrow> string \<Rightarrow> pyval \<Rightarrow> dict" where
  "dict_set d k v = AList.update k v d"

text \<open>\<open>d.update(other)\<close> for a dict \<open>other\<close>: its items are stored in order.\<close>

definition dict_update :: "dict \<Rightarrow> dict \<Rightarrow> dict" where
  "dict_update d other = fold (\<lambda>(k, v) acc. dict_set acc k v) other d"

text \<open>\<open>x.get(k)\<close> and \<open>x[k]\<close> on an arbitrary object: only a dict has them.\<close>

fun py_get :: "pyval \<Rightarrow> string \<Rightarrow> exn + pyval" where
  "py_get (PDict d) k = Inr (dict_get d k)"
| "py_get v k = Inl AttributeError"

fun py_get_default :: "pyval \<Rightarrow> string \<Rightarrow> pyval \<Rightarrow> exn + pyval" where
  "py_get_default (PDict d) k dflt = Inr (dict_get_default d k dflt)"
| "py_get_default v k dflt = Inl AttributeError"

fun py_item :: "pyval \<Rightarrow> string \<Rightarrow> exn + pyval" where
  "py_item (PDict d) k = (case map_of d k of None \<Rightarrow> Inl KeyError | Some v \<Rightarrow> Inr v)"
| "py_item v k = Inl TypeError"

text \<open>
  \<open>json.dumps\<close> raises \<open>TypeError\<close> on \<open>bytes\<close>; \<open>json.loads\<close> raises on anything that
  is not JSON text.
\<close>

fun jsonable :: "pyval \<Rightarrow> bool" where
  "jsonable PNone = True"
| "jsonable (PInt i) = True"
| "jsonable (PStr s) = True"
| "jsonable (PBytes b) = False"
| "jsonable (PJson v) = True"
| "jsonable (PList xs) = list_all jsonable xs"
| "jsonable (PDict kvs) = list_all jsonable (map snd kvs)"

definition json_dumps :: "pyval \<Rightarrow> exn + pyval" where
  "json_dumps v = (if jsonable v then Inr (PJson v) else Inl TypeError)"

fun json_loads :: "pyval \<Rightarrow> exn + pyval" where
  "json_loads (PJson v) = Inr v"
| "json_loads (PStr s) = Inl JSONDecodeError"
| "json_loads v = Inl TypeError"

section \<open>The saver, the client and the backend records\<close>

text \<open>
  The attributes \<open>__init__\<close> sets, and the names the methods take from outside this
  repository: the serializer \<open>self.serde\<close> of \<open>BaseCheckpointSaver\<close>
  (\<open>dumps_typed\<close>, \<open>loads_typed\<close>), the table \<open>WRITES_IDX_MAP\<close> of
  \<open>langgraph.checkpoint.base\<close>, and the text an f-string gives for an object that is not
  a \<open>PStr\<close> (\<open>py_format\<close>). They are parameters of the model.
\<close>

record saver =
  ns :: string
  set_cp :: string
  set_writes :: string
  set_meta :: string
  ttl :: "int option"
  timeline_max :: nat
  dumps_typed :: "pyval \<Rightarrow> pyval \<times> pyval"
  loads_typed :: "pyval \<times> pyval \<Rightarrow> exn + pyval"
  WRITES_IDX_MAP :: "string \<Rightarrow> int option"
  py_format :: "pyval \<Rightarrow> string"

text \<open>\<open>__init__\<close>: \<open>self.timeline_max = max(1, int(timeline_max))\<close>.\<close>

definition AerospikeSaver_init ::
  "string \<Rightarrow> string \<Rightarrow> string \<Rightarrow> string \<Rightarrow> int option \<Rightarrow> int \<Rightarrow>
   (pyval \<Rightarrow> pyval \<times> pyval) \<Rightarrow> (pyval \<times> pyval \<Rightarrow> exn + pyval) \<Rightarrow>
   (string \<Rightarrow> int option) \<Rightarrow> (pyval \<Rightarrow> string) \<Rightarrow> saver" where
  "AerospikeSaver_init namespace scp swr smeta t tmax dumps loads idx_map fmt =
     \<lparr>ns = namespace, set_cp = scp, set_writes = swr, set_meta = smeta, ttl = t,
      timeline_max = nat (max 1 tmax), dumps_typed = dumps, loads_typed = loads,
      WRITES_IDX_MAP = idx_map, py_format = fmt\<rparr>"

text \<open>
  The Aerospike client is the state the methods work on: the records by key, and, for
  every key, whether the backend answers a get or a put on it with an
  \<open>AerospikeError\<close> other than \<open>RecordNotFound\<close>. A put stores the bins under the key.
\<close>

record client =
  recs :: "key \<Rightarrow> dict option"
  get_fails :: "key \<Rightarrow> bool"
  put_fails :: "key \<Rightarrow> bool"

text \<open>The f-string \<open>f"{thread_id}{SEP}{checkpoint_ns}{SEP}{checkpoint_id}"\<close>.\<close>

definition SEP :: string where
  "SEP = ''|''"

definition fstr :: "saver \<Rightarrow> pyval \<Rightarrow> string" where
  "fstr sv v = (case v of PStr s \<Rightarrow> s | _ \<Rightarrow> py_format sv v)"

definition key_cp :: "saver \<Rightarrow> pyval \<Rightarrow> pyval \<Rightarrow> pyval \<Rightarrow> key" where
  "key_cp sv thread_id checkpoint_ns checkpoint_id =
     (ns sv, set_cp sv, fstr sv thread_id @ SEP @ fstr sv checkpoint_ns @ SEP @ fstr sv checkpoint_id)"

definition key_writes :: "saver \<Rightarrow> pyval \<Rightarrow> pyval \<Rightarrow> pyval \<Rightarrow> key" where
  "key_writes sv thread_id checkpoint_ns checkpoint_id =
     (ns sv, set_writes sv, fstr sv thread_id @ SEP @ fstr sv checkpoint_ns @ SEP @ fstr sv checkpoint_id)"

definition key_latest :: "saver \<Rightarrow> pyval \<Rightarrow> pyval \<Rightarrow> key" where
  "key_latest sv thread_id checkpoint_ns =
     (ns sv, set_meta sv, fstr sv thread_id @ SEP @ fstr sv checkpoint_ns @ SEP @ ''__latest__'')"

definition key_timeline :: "saver \<Rightarrow> pyval \<Rightarrow> pyval \<Rightarrow> key" where
  "key_timeline sv thread_id checkpoint_ns =
     (ns sv, set_meta sv, fstr sv thread_id @ SEP @ fstr sv checkpoint_ns @ SEP @ ''__timeline__'')"

text \<open>
  \<open>_ids_from_config\<close>: the thread id comes from \<open>configurable\<close> or \<open>metadata\<close> and is
  required; the namespace defaults to the empty string; the checkpoint id is
  \<open>configurable.checkpoint_id\<close> or \<open>None\<close>. \<open>cfg.get("configurable", {}) or {}\<close> is
  \<open>cfg_section\<close>: \<open>c.get\<close> is always called, and a truthy value that is not a dict has
  no \<open>get\<close>. \<open>md.get\<close> is called only where \<open>x or md.get(...)\<close> reaches it
  (\<open>lazy_or\<close>), so a \<open>metadata\<close> that is not a dict raises only then.
\<close>

definition cfg_section :: "dict \<Rightarrow> string \<Rightarrow> exn + dict" where
  "cfg_section cfg name =
     (let v = dict_get_default cfg name (PDict []) in
      if \<not> truthy v then Inr []
      else (case v of PDict d \<Rightarrow> Inr d | _ \<Rightarrow> Inl AttributeError))"

definition lazy_or :: "pyval \<Rightarrow> exn + pyval \<Rightarrow> exn + pyval" where
  "lazy_or a m = (if truthy a then Inr a else m)"

definition ids_from_config :: "dict \<Rightarrow> exn + (pyval \<times> pyval \<times> pyval)" where
  "ids_from_config cfg =
     ebind (cfg_section cfg ''configurable'') (\<lambda>c.
       let md = py_or (dict_get_default cfg ''metadata'' (PDict [])) (PDict []) in
       ebind (lazy_or (dict_get c ''thread_id'') (py_get md ''thread_id'')) (\<lambda>thread_id.
         if \<not> truthy thread_id then Inl ValueError
         else
           ebind (lazy_or (dict_get c ''checkpoint_ns'') (py_get md ''checkpoint_ns''))
             (\<lambda>ns1.
               let checkpoint_ns = py_or ns1 (PStr []);
                   checkpoint_id = dict_get c ''checkpoint_id''
               in Inr (thread_id, checkpoint_ns, checkpoint_id))))"

text \<open>
  \<open>_put\<close> and \<open>_get\<close> (here \<open>put_record\<close> and \<open>get_record\<close>): a backend error becomes a
  \<open>RuntimeError\<close>, a missing record \<open>None\<close>. The \<open>ttl\<close> is handed to the backend and has
  no effect in the model: a record stays until it is overwritten.
\<close>

definition put_record :: "client \<Rightarrow> key \<Rightarrow> dict \<Rightarrow> exn + client" where
  "put_record c k bins =
     (if put_fails c k then Inl (RuntimeError OpPut k)
      else Inr (c\<lparr>recs := (recs c)(k \<mapsto> bins)\<rparr>))"

definition get_record :: "client \<Rightarrow> key \<Rightarrow> exn + dict option" where
  "get_record c k = (if get_fails c k then Inl (RuntimeError OpGet k) else Inr (recs c k))"

text \<open>
  Iterating an object (\<open>for it in items\<close>): a list gives its elements, a dict its keys, a
  \<open>str\<close> its characters, \<open>bytes\<close> its byte values; \<open>None\<close> and an integer raise
  \<open>TypeError\<close>.
\<close>

fun py_iter :: "saver \<Rightarrow> pyval \<Rightarrow> exn + pyval list" where
  "py_iter sv (PList xs) = Inr xs"
| "py_iter sv (PDict kvs) = Inr (map (\<lambda>kv. PStr (fst kv)) kvs)"
| "py_iter sv (PStr s) = Inr (map (\<lambda>ch. PStr [ch]) s)"
| "py_iter sv (PJson v) = Inr (map (\<lambda>ch. PStr [ch]) (py_format sv (PJson v)))"
| "py_iter sv (PBytes b) = Inr (map (\<lambda>ch. PInt (int (of_char ch))) b)"
| "py_iter sv v = Inl TypeError"

text \<open>
  \<open>_read_timeline_items\<close>: the entries \<open>[ts, checkpoint_id]\<close> of the JSON list in the bin
  \<open>items\<close>; an entry of another shape is skipped, and any exception gives the empty
  list.
\<close>

fun clean_item :: "pyval \<Rightarrow> (pyval \<times> pyval) option" where
  "clean_item (PList [a, b]) = (if is_str b then Some (a, b) else None)"
| "clean_item v = None"

definition read_timeline_items :: "saver \<Rightarrow> client \<Rightarrow> key \<Rightarrow> exn + (pyval \<times> pyval) list" where
  "read_timeline_items sv c timeline_key =
     ebind (get_record c timeline_key) (\<lambda>rec.
       case rec of
         None \<Rightarrow> Inr []
       | Some bins \<Rightarrow>
           Inr (case ebind (json_loads (dict_get_default bins ''items'' (PJson (PList []))))
                       (py_iter sv) of
                  Inl e \<Rightarrow> []
                | Inr items \<Rightarrow> List.map_filter clean_item items))"

section \<open>put: checkpoint record, latest pointer, timeline\<close>

text \<open>
  \<open>metadata.update(config.get("metadata", {}))\<close>: the argument is not guarded by
  \<open>or {}\<close>, so \<open>None\<close> and an integer raise \<open>TypeError\<close>; an empty \<open>str\<close>, \<open>bytes\<close> or list
  adds nothing, a non-empty \<open>str\<close> or \<open>bytes\<close> raises. A non-empty list, which
  \<open>dict.update\<close> reads as a sequence of key/value pairs, is outside the model
  (\<open>RunnableConfig\<close> types \<open>metadata\<close> as a dict): the model lets it raise.
\<close>

fun update_from :: "dict \<Rightarrow> pyval \<Rightarrow> exn + dict" where
  "update_from d (PDict other) = Inr (dict_update d other)"
| "update_from d PNone = Inl TypeError"
| "update_from d (PInt i) = Inl TypeError"
| "update_from d (PStr s) = (if s = [] then Inr d else Inl ValueError)"
| "update_from d (PBytes b) = (if b = [] then Inr d else Inl TypeError)"
| "update_from d (PJson v) = Inl ValueError"
| "update_from d (PList xs) = (if xs = [] then Inr d else Inl TypeError)"

text \<open>The three records \<open>put\<close> writes, and the configuration it returns.\<close>

definition cp_record ::
  "pyval \<Rightarrow> pyval \<Rightarrow> pyval \<Rightarrow> pyval \<Rightarrow> pyval \<times> pyval \<Rightarrow> pyval \<times> pyval \<Rightarrow> pyval \<Rightarrow> dict" where
  "cp_record thread_id checkpoint_ns checkpoint_id parent_checkpoint_id cp meta ts =
     [(''thread_id'', thread_id),
      (''checkpoint_ns'', checkpoint_ns),
      (''checkpoint_id'', checkpoint_id),
      (''p_checkpoint_id'', parent_checkpoint_id),
      (''cp_type'', fst cp),
      (''checkpoint'', snd cp),
      (''meta_type'', fst meta),
      (''metadata'', snd meta),
      (''ts'', ts)]"

definition latest_record :: "pyval \<Rightarrow> pyval \<Rightarrow> dict" where
  "latest_record checkpoint_id ts = [(''checkpoint_id'', checkpoint_id), (''ts'', ts)]"

text \<open>\<open>json.dumps(items)\<close>: every tuple \<open>(ts, checkpoint_id)\<close> becomes a JSON list.\<close>

definition items_json :: "(pyval \<times> pyval) list \<Rightarrow> pyval" where
  "items_json items = PList (map (\<lambda>it. PList [fst it, snd it]) items)"

text \<open>
  The timeline update of \<open>put\<close>: drop the entries of this checkpoint id, insert the new
  entry at the head, cut to \<open>timeline_max\<close>.
\<close>

definition timeline_insert ::
  "saver \<Rightarrow> pyval \<Rightarrow> pyval \<Rightarrow> (pyval \<times> pyval) list \<Rightarrow> (pyval \<times> pyval) list" where
  "timeline_insert sv ts checkpoint_id items =
     (let items1 = filter (\<lambda>it. snd it \<noteq> checkpoint_id) items;
          items2 = (ts, checkpoint_id) # items1
      in if length items2 > timeline_max sv then take (timeline_max sv) items2 else items2)"

definition new_config :: "dict \<Rightarrow> pyval \<Rightarrow> pyval \<Rightarrow> pyval \<Rightarrow> dict" where
  "new_config cfg thread_id checkpoint_ns checkpoint_id =
     (let cfg_conf0 = (case py_or (dict_get cfg ''configurable'') (PDict []) of
                         PDict d \<Rightarrow> d | _ \<Rightarrow> []);
          cfg_conf = dict_update cfg_conf0
                       [(''thread_id'', thread_id),
                        (''checkpoint_ns'', checkpoint_ns),
                        (''checkpoint_id'', checkpoint_id)]
      in dict_set cfg ''configurable'' (PDict cfg_conf))"

text \<open>
  The timestamp of the checkpoint: \<open>checkpoint.get("ts")\<close>, or the clock's value when
  that is \<open>None\<close>, which is then stored into the checkpoint (\<open>checkpoint["ts"] = ts\<close>).
\<close>

definition checkpoint_ts :: "int \<Rightarrow> dict \<Rightarrow> pyval" where
  "checkpoint_ts now checkpoint =
     (if dict_get checkpoint ''ts'' = PNone then PInt now else dict_get checkpoint ''ts'')"

definition stamped :: "int \<Rightarrow> dict \<Rightarrow> dict" where
  "stamped now checkpoint =
     (if dict_get checkpoint ''ts'' = PNone then dict_set checkpoint ''ts'' (PInt now)
      else checkpoint)"

text \<open>
  \<open>put\<close>. \<open>now\<close> is the value \<open>time.time_ns()\<close> has during the call. The result is the
  returned configuration or the exception raised, with the client as the call leaves it:
  an exception after the first write leaves that write in place.
\<close>

definition put ::
  "saver \<Rightarrow> int \<Rightarrow> client \<Rightarrow> dict \<Rightarrow> dict \<Rightarrow> dict \<Rightarrow> (exn + dict) \<times> client" where
  "put sv now c cfg checkpoint metadata =
     (case ids_from_config cfg of
        Inl e \<Rightarrow> (Inl e, c)
      | Inr (thread_id, checkpoint_ns, parent_checkpoint_id) \<Rightarrow>
          let checkpoint_id = dict_get checkpoint ''id'' in
          if \<not> truthy checkpoint_id then (Inl ValueError, c)
          else
            let ts = checkpoint_ts now checkpoint;
                cp = dumps_typed sv (PDict (stamped now checkpoint))
            in
            (case update_from metadata (dict_get_default cfg ''metadata'' (PDict [])) of
               Inl e \<Rightarrow> (Inl e, c)
             | Inr metadata1 \<Rightarrow>
                 let meta = dumps_typed sv (PDict metadata1);
                     k = key_cp sv thread_id checkpoint_ns checkpoint_id;
                     rec = cp_record thread_id checkpoint_ns checkpoint_id
                             parent_checkpoint_id cp meta ts
                 in
                 (case put_record c k rec of
                    Inl e \<Rightarrow> (Inl e, c)
                  | Inr c1 \<Rightarrow>
                      let latest_key = key_latest sv thread_id checkpoint_ns in
                      (case put_record c1 latest_key (latest_record checkpoint_id ts) of
                         Inl e \<Rightarrow> (Inl e, c1)
                       | Inr c2 \<Rightarrow>
                           let timeline_key = key_timeline sv thread_id checkpoint_ns in
                           (case read_timeline_items sv c2 timeline_key of
                              Inl e \<Rightarrow> (Inl e, c2)
                            | Inr items \<Rightarrow>
                                (case json_dumps
                                        (items_json (timeline_insert sv ts checkpoint_id items)) of
                                   Inl e \<Rightarrow> (Inl e, c2)
                                 | Inr text \<Rightarrow>
                                     (case put_record c2 timeline_key [(''items'', text)] of
                                        Inl e \<Rightarrow> (Inl e, c2)
                                      | Inr c3 \<Rightarrow>
                                          (Inr (new_config cfg thread_id checkpoint_ns
                                                  checkpoint_id), c3))))))))"

section \<open>put\_writes: the write-set ledger\<close>

text \<open>The entry \<open>put_writes\<close> builds for one write.\<close>

definition new_item ::
  "saver \<Rightarrow> int \<Rightarrow> string \<Rightarrow> string \<Rightarrow> string \<Rightarrow> int \<Rightarrow> pyval \<Rightarrow> pyval" where
  "new_item sv now_ts task_id task_path channel idx_val v =
     PDict [(''task_id'', PStr task_id),
            (''task_path'', PStr task_path),
            (''channel'', PStr channel),
            (''idx'', PInt idx_val),
            (''type'', fst (dumps_typed sv v)),
            (''value'', snd (dumps_typed sv v)),
            (''ts'', PInt now_ts)]"

text \<open>\<open>idx_val = WRITES_IDX_MAP.get(channel, idx)\<close>.\<close>

definition idx_val_of :: "saver \<Rightarrow> string \<Rightarrow> nat \<Rightarrow> int" where
  "idx_val_of sv channel idx = (case WRITES_IDX_MAP sv channel of Some n \<Rightarrow> n | None \<Rightarrow> int idx)"

text \<open>
  The inner loop: the position of the first existing entry with this task id and
  ordering index. An element without \<open>get\<close> raises \<open>AttributeError\<close>.
\<close>

fun find_replace_at :: "pyval list \<Rightarrow> pyval \<Rightarrow> pyval \<Rightarrow> nat \<Rightarrow> exn + nat option" where
  "find_replace_at [] task_id idx_val i = Inr None"
| "find_replace_at (item # rest) task_id idx_val i =
     ebind (py_get item ''task_id'') (\<lambda>a.
       if a = task_id then
         ebind (py_get item ''idx'') (\<lambda>b.
           if b = idx_val then Inr (Some i) else find_replace_at rest task_id idx_val (Suc i))
       else find_replace_at rest task_id idx_val (Suc i))"

text \<open>\<open>existing_items[replace_at] = new_item\<close> and \<open>existing_items.append(new_item)\<close>.\<close>

fun py_setitem :: "pyval \<Rightarrow> nat \<Rightarrow> pyval \<Rightarrow> exn + pyval" where
  "py_setitem (PList xs) i v = (if i < length xs then Inr (PList (xs[i := v])) else Inl TypeError)"
| "py_setitem x i v = Inl TypeError"

fun py_append :: "pyval \<Rightarrow> pyval \<Rightarrow> exn + pyval" where
  "py_append (PList xs) v = Inr (PList (xs @ [v]))"
| "py_append x v = Inl AttributeError"

text \<open>The body of the loop over \<open>enumerate(writes)\<close>, and the loop.\<close>

definition write_step ::
  "saver \<Rightarrow> int \<Rightarrow> string \<Rightarrow> string \<Rightarrow> pyval \<Rightarrow> nat \<Rightarrow> string \<Rightarrow> pyval \<Rightarrow> exn + pyval" where
  "write_step sv now_ts task_id task_path existing_items idx channel v =
     (let idx_val = idx_val_of sv channel idx;
          item = new_item sv now_ts task_id task_path channel idx_val v
      in ebind (py_iter sv existing_items) (\<lambda>its.
         ebind (find_replace_at its (PStr task_id) (PInt idx_val) 0) (\<lambda>replace_at.
           case replace_at of
             Some i \<Rightarrow> py_setitem existing_items i item
           | None \<Rightarrow> py_append existing_items item)))"

fun writes_loop ::
  "saver \<Rightarrow> int \<Rightarrow> string \<Rightarrow> string \<Rightarrow> pyval \<Rightarrow> nat \<Rightarrow> (string \<times> pyval) list \<Rightarrow> exn + pyval" where
  "writes_loop sv now_ts task_id task_path existing_items idx [] = Inr existing_items"
| "writes_loop sv now_ts task_id task_path existing_items idx ((channel, v) # rest) =
     ebind (write_step sv now_ts task_id task_path existing_items idx channel v) (\<lambda>items'.
       writes_loop sv now_ts task_id task_path items' (Suc idx) rest)"

text \<open>
  \<open>put_writes\<close>. \<open>existing_items\<close> starts as the empty list and becomes
  \<open>bins.get("writes")\<close> when the ledger record exists.
\<close>

definition put_writes ::
  "saver \<Rightarrow> int \<Rightarrow> client \<Rightarrow> dict \<Rightarrow> (string \<times> pyval) list \<Rightarrow> string \<Rightarrow> string \<Rightarrow>
   (exn + unit) \<times> client" where
  "put_writes sv now_ts c cfg writes task_id task_path =
     (if writes = [] then (Inr (), c)
      else
        (case ids_from_config cfg of
           Inl e \<Rightarrow> (Inl e, c)
         | Inr (thread_id, checkpoint_ns, checkpoint_id) \<Rightarrow>
             if \<not> truthy checkpoint_id then (Inr (), c)
             else
               let k = key_writes sv thread_id checkpoint_ns checkpoint_id in
               (case get_record c k of
                  Inl e \<Rightarrow> (Inl e, c)
                | Inr existing_rec \<Rightarrow>
                    let existing_items =
                          (case existing_rec of
                             None \<Rightarrow> PList []
                           | Some bins \<Rightarrow> dict_get bins ''writes'')
                    in
                    (case writes_loop sv now_ts task_id task_path existing_items 0 writes of
                       Inl e \<Rightarrow> (Inl e, c)
                     | Inr items \<Rightarrow>
                         (case put_record c k [(''writes'', items)] of
                            Inl e \<Rightarrow> (Inl e, c)
                          | Inr c' \<Rightarrow> (Inr (), c'))))))"

text \<open>
  The ledger of a checkpoint as a list of entries, the pair (task id, ordering index)
  of an entry, and, for the write at position \<open>j\<close> of a \<open>put_writes\<close> call, its pair and
  the entry the call builds for it.
\<close>

definition ledger_items :: "client \<Rightarrow> key \<Rightarrow> pyval list" where
  "ledger_items c k =
     (case recs c k of
        None \<Rightarrow> []
      | Some bins \<Rightarrow> (case dict_get bins ''writes'' of PList L \<Rightarrow> L | _ \<Rightarrow> []))"

definition pair_of :: "pyval \<Rightarrow> pyval \<times> pyval" where
  "pair_of item =
     (case item of
        PDict d \<Rightarrow> (dict_get d ''task_id'', dict_get d ''idx'')
      | _ \<Rightarrow> (PNone, PNone))"

definition write_pair :: "saver \<Rightarrow> string \<Rightarrow> (string \<times> pyval) list \<Rightarrow> nat \<Rightarrow> pyval \<times> pyval" where
  "write_pair sv task_id writes j = (PStr task_id, PInt (idx_val_of sv (fst (writes ! j)) j))"

definition write_item ::
  "saver \<Rightarrow> int \<Rightarrow> string \<Rightarrow> string \<Rightarrow> (string \<times> pyval) list \<Rightarrow> nat \<Rightarrow> pyval" where
  "write_item sv now_ts task_id task_path writes j =
     new_item sv now_ts task_id task_path (fst (writes ! j))
       (idx_val_of sv (fst (writes ! j)) j) (snd (writes ! j))"

section \<open>get\_tuple and list\<close>

text \<open>\<open>CheckpointTuple\<close> of \<open>langgraph.checkpoint.base\<close>.\<close>

record checkpoint_tuple =
  ct_config :: dict
  ct_checkpoint :: pyval
  ct_metadata :: pyval
  ct_parent_config :: "dict option"
  ct_pending_writes :: "(pyval \<times> pyval \<times> pyval) list"

definition scope_config :: "pyval \<Rightarrow> pyval \<Rightarrow> pyval \<Rightarrow> dict" where
  "scope_config thread_id checkpoint_ns checkpoint_id =
     [(''configurable'',
       PDict [(''thread_id'', thread_id),
              (''checkpoint_ns'', checkpoint_ns),
              (''checkpoint_id'', checkpoint_id)])]"

text \<open>
  The loop of \<open>get_tuple\<close> over the ledger entries: \<open>KeyError\<close> skips the entry, every
  other exception leaves the loop and the method.
\<close>

definition decode_write :: "saver \<Rightarrow> pyval \<Rightarrow> exn + (pyval \<times> pyval \<times> pyval)" where
  "decode_write sv item =
     ebind (py_get_default item ''task_id'' (PStr [])) (\<lambda>task_id.
     ebind (py_item item ''channel'') (\<lambda>channel.
     ebind (py_item item ''type'') (\<lambda>ty.
     ebind (py_item item ''value'') (\<lambda>serialized.
     ebind (loads_typed sv (ty, serialized)) (\<lambda>v.
       Inr (task_id, channel, v))))))"

fun pending_loop :: "saver \<Rightarrow> pyval list \<Rightarrow> exn + (pyval \<times> pyval \<times> pyval) list" where
  "pending_loop sv [] = Inr []"
| "pending_loop sv (item # rest) =
     (case decode_write sv item of
        Inl KeyError \<Rightarrow> pending_loop sv rest
      | Inl e \<Rightarrow> Inl e
      | Inr w \<Rightarrow> ebind (pending_loop sv rest) (\<lambda>ws. Inr (w # ws)))"

definition read_pending_writes ::
  "saver \<Rightarrow> client \<Rightarrow> key \<Rightarrow> exn + (pyval \<times> pyval \<times> pyval) list" where
  "read_pending_writes sv c k =
     ebind (get_record c k) (\<lambda>wrec.
       case wrec of
         None \<Rightarrow> Inr []
       | Some wbins \<Rightarrow>
           ebind (py_iter sv (py_or (dict_get wbins ''writes'') (PList []))) (pending_loop sv))"

text \<open>
  The checkpoint id \<open>get_tuple\<close> works on: the one of the configuration, or, when that
  is \<open>None\<close>, the one of the latest pointer record (\<open>None\<close> of the option: not found).
\<close>

definition resolve_checkpoint_id ::
  "saver \<Rightarrow> client \<Rightarrow> pyval \<Rightarrow> pyval \<Rightarrow> pyval \<Rightarrow> exn + pyval option" where
  "resolve_checkpoint_id sv c thread_id checkpoint_ns checkpoint_id =
     (if checkpoint_id = PNone then
        ebind (get_record c (key_latest sv thread_id checkpoint_ns)) (\<lambda>latest.
          case latest of
            None \<Rightarrow> Inr None
          | Some bins \<Rightarrow>
              if \<not> dict_has bins ''checkpoint_id'' then Inr None
              else Inr (Some (dict_get bins ''checkpoint_id'')))
      else Inr (Some checkpoint_id))"

definition parent_config_of :: "pyval \<Rightarrow> pyval \<Rightarrow> dict \<Rightarrow> dict option" where
  "parent_config_of thread_id checkpoint_ns bins =
     (if truthy (dict_get bins ''p_checkpoint_id'')
      then Some (scope_config thread_id checkpoint_ns (dict_get bins ''p_checkpoint_id''))
      else None)"

text \<open>
  The part of \<open>get_tuple\<close> after the checkpoint record is fetched: the two payloads are
  decoded (a missing field or a decode failure gives \<open>None\<close>), then the ledger is read.
\<close>

definition tuple_of_record ::
  "saver \<Rightarrow> client \<Rightarrow> pyval \<Rightarrow> pyval \<Rightarrow> pyval \<Rightarrow> dict \<Rightarrow> exn + checkpoint_tuple option" where
  "tuple_of_record sv c thread_id checkpoint_ns checkpoint_id bins =
     (let cp_type = dict_get bins ''cp_type'';
          raw_cp = dict_get bins ''checkpoint'';
          raw_meta = dict_get bins ''metadata'';
          meta_type = dict_get bins ''meta_type''
      in
      if cp_type = PNone \<or> raw_cp = PNone then Inr None
      else
        (case loads_typed sv (cp_type, raw_cp) of
           Inl e \<Rightarrow> Inr None
         | Inr checkpoint \<Rightarrow>
             if meta_type = PNone \<or> raw_meta = PNone then Inr None
             else
               (case loads_typed sv (meta_type, raw_meta) of
                  Inl e \<Rightarrow> Inr None
                | Inr metadata \<Rightarrow>
                    ebind (read_pending_writes sv c
                             (key_writes sv thread_id checkpoint_ns checkpoint_id))
                      (\<lambda>pending.
                        Inr (Some \<lparr>ct_config = scope_config thread_id checkpoint_ns checkpoint_id,
                                   ct_checkpoint = checkpoint,
                                   ct_metadata = metadata,
                                   ct_parent_config = parent_config_of thread_id checkpoint_ns bins,
                                   ct_pending_writes = pending\<rparr>)))))"

definition get_tuple :: "saver \<Rightarrow> client \<Rightarrow> dict \<Rightarrow> exn + checkpoint_tuple option" where
  "get_tuple sv c cfg =
     ebind (ids_from_config cfg) (\<lambda>(thread_id, checkpoint_ns, checkpoint_id0).
     ebind (resolve_checkpoint_id sv c thread_id checkpoint_ns checkpoint_id0) (\<lambda>resolved.
       case resolved of
         None \<Rightarrow> Inr None
       | Some checkpoint_id \<Rightarrow>
           ebind (get_record c (key_cp sv thread_id checkpoint_ns checkpoint_id)) (\<lambda>got.
             case got of
               None \<Rightarrow> Inr None
             | Some bins \<Rightarrow>
                 tuple_of_record sv c thread_id checkpoint_ns checkpoint_id bins)))"

text \<open>
  \<open>list\<close> (here \<open>list_checkpoints\<close>). The loop that applies \<open>before\<close>: entries are
  skipped up to and including the
  first one whose id is \<open>before_id\<close>.
\<close>

fun before_loop :: "pyval \<Rightarrow> bool \<Rightarrow> (pyval \<times> pyval) list \<Rightarrow> (pyval \<times> pyval) list" where
  "before_loop before_id seen [] = []"
| "before_loop before_id seen ((ts, cid) # rest) =
     (if \<not> seen then
        (if cid = before_id then before_loop before_id True rest
         else before_loop before_id False rest)
      else (ts, cid) # before_loop before_id seen rest)"

text \<open>The metadata filter: \<open>tpl.metadata.get(k) != v\<close> for the items of the filter, in order.\<close>

fun filter_ok :: "pyval \<Rightarrow> dict \<Rightarrow> exn + bool" where
  "filter_ok md [] = Inr True"
| "filter_ok md ((k, v) # rest) =
     ebind (py_get md k) (\<lambda>x. if x \<noteq> v then Inr False else filter_ok md rest)"

text \<open>
  The generator's main loop. The result is the list of the tuples yielded, and the
  exception that ended the iteration, if one did.
\<close>

fun list_loop ::
  "saver \<Rightarrow> client \<Rightarrow> pyval \<Rightarrow> pyval \<Rightarrow> dict option \<Rightarrow> int option \<Rightarrow> nat \<Rightarrow>
   (pyval \<times> pyval) list \<Rightarrow> checkpoint_tuple list \<times> exn option" where
  "list_loop sv c thread_id checkpoint_ns flt limit yielded [] = ([], None)"
| "list_loop sv c thread_id checkpoint_ns flt limit yielded ((ts, cid) # rest) =
     (if (case limit of None \<Rightarrow> False | Some l \<Rightarrow> int yielded \<ge> l) then ([], None)
      else
        (case get_tuple sv c (scope_config thread_id checkpoint_ns cid) of
           Inl e \<Rightarrow> ([], Some e)
         | Inr None \<Rightarrow> list_loop sv c thread_id checkpoint_ns flt limit yielded rest
         | Inr (Some tpl) \<Rightarrow>
             (case (case flt of
                      None \<Rightarrow> Inr True
                    | Some f \<Rightarrow> if f = [] then Inr True else filter_ok (ct_metadata tpl) f) of
                Inl e \<Rightarrow> ([], Some e)
              | Inr ok \<Rightarrow>
                  if \<not> ok then list_loop sv c thread_id checkpoint_ns flt limit yielded rest
                  else
                    (let r = list_loop sv c thread_id checkpoint_ns flt limit (Suc yielded) rest
                     in (tpl # fst r, snd r)))))"

definition list_checkpoints ::
  "saver \<Rightarrow> client \<Rightarrow> dict option \<Rightarrow> dict option \<Rightarrow> dict option \<Rightarrow> int option \<Rightarrow>
   checkpoint_tuple list \<times> exn option" where
  "list_checkpoints sv c cfg flt before_cfg limit =
     (case ids_from_config (case cfg of None \<Rightarrow> [] | Some d \<Rightarrow> d) of
        Inl e \<Rightarrow> ([], Some e)
      | Inr (thread_id, checkpoint_ns, unused) \<Rightarrow>
          (case read_timeline_items sv c (key_timeline sv thread_id checkpoint_ns) of
             Inl e \<Rightarrow> ([], Some e)
           | Inr items \<Rightarrow>
               (case (case before_cfg of
                        None \<Rightarrow> Inr PNone
                      | Some b \<Rightarrow> ebind (ids_from_config b) (\<lambda>(t, n, i). Inr i)) of
                  Inl e \<Rightarrow> ([], Some e)
                | Inr before_id \<Rightarrow>
                    list_loop sv c thread_id checkpoint_ns flt limit 0
                      (if truthy before_id then before_loop before_id False items else items))))"

text \<open>The checkpoint id a yielded tuple carries: \<open>tpl.config["configurable"]["checkpoint_id"]\<close>.\<close>

definition tuple_checkpoint_id :: "checkpoint_tuple \<Rightarrow> pyval" where
  "tuple_checkpoint_id tpl =
     (case dict_get (ct_config tpl) ''configurable'' of
        PDict d \<Rightarrow> dict_get d ''checkpoint_id''
      | _ \<Rightarrow> PNone)"

section \<open>Sequences of put calls\<close>

text \<open>
  One call of \<open>put\<close>: the clock's value during the call and the three arguments the
  method reads. \<open>puts\<close> makes the calls in order, each on the client the call before it
  left, and stops at the first call that raises.
\<close>

record put_call =
  pc_now :: int
  pc_config :: dict
  pc_checkpoint :: dict
  pc_metadata :: dict

fun puts :: "saver \<Rightarrow> client \<Rightarrow> put_call list \<Rightarrow> exn + client" where
  "puts sv c [] = Inr c"
| "puts sv c (call # rest) =
     (case put sv (pc_now call) c (pc_config call) (pc_checkpoint call) (pc_metadata call) of
        (Inl e, c1) \<Rightarrow> Inl e
      | (Inr cfg', c1) \<Rightarrow> puts sv c1 rest)"

text \<open>The checkpoint id of a call and the timeline entry the call inserts.\<close>

definition call_id :: "put_call \<Rightarrow> pyval" where
  "call_id call = dict_get (pc_checkpoint call) ''id''"

definition call_entry :: "put_call \<Rightarrow> pyval \<times> pyval" where
  "call_entry call = (checkpoint_ts (pc_now call) (pc_checkpoint call), call_id call)"

text \<open>
  A call is in the scope \<open>(thread_id, checkpoint_ns)\<close> when its configuration resolves
  to it. Its checkpoint id is a plain \<open>str\<close>; where the checkpoint records share the
  set of the pointer and timeline records, it is not the reserved token of the
  timeline key.
\<close>

definition call_in_scope :: "pyval \<Rightarrow> pyval \<Rightarrow> put_call \<Rightarrow> bool" where
  "call_in_scope thread_id checkpoint_ns call =
     (case ids_from_config (pc_config call) of
        Inl e \<Rightarrow> False
      | Inr (t, n, parent) \<Rightarrow> t = thread_id \<and> n = checkpoint_ns)"

definition plain_id :: "saver \<Rightarrow> pyval \<Rightarrow> bool" where
  "plain_id sv checkpoint_id =
     (case checkpoint_id of
        PStr X \<Rightarrow> \<not> (set_cp sv = set_meta sv \<and> X = ''__timeline__'')
      | _ \<Rightarrow> False)"

text \<open>
  The serializer round-trips (\<open>loads_typed(dumps_typed(v)) == v\<close>), and neither the type
  tag nor the payload it returns is \<open>None\<close>.
\<close>

definition serde_roundtrip :: "saver \<Rightarrow> bool" where
  "serde_roundtrip sv =
     (\<forall>v. fst (dumps_typed sv v) \<noteq> PNone \<and> snd (dumps_typed sv v) \<noteq> PNone \<and>
          loads_typed sv (dumps_typed sv v) = Inr v)"

section \<open>A concrete saver and client\<close>

text \<open>
  A saver as the test fixtures build it (namespace \<open>test\<close>, the default sets, a
  timeline of at most two entries), with a serializer that wraps a value under the tag
  \<open>msgpack\<close> and the special-channel table of \<open>langgraph.checkpoint.base\<close>; an empty,
  healthy client; and the configuration of the fixture \<open>cfg_base\<close>.
\<close>

definition demo_dumps :: "pyval \<Rightarrow> pyval \<times> pyval" where
  "demo_dumps v = (PStr ''msgpack'', PList [v])"

fun demo_loads :: "pyval \<times> pyval \<Rightarrow> exn + pyval" where
  "demo_loads (PStr t, PList [v]) = (if t = ''msgpack'' then Inr v else Inl SerdeError)"
| "demo_loads other = Inl SerdeError"

definition demo_idx_map :: "string \<Rightarrow> int option" where
  "demo_idx_map =
     map_of [(''__error__'', - 1), (''__scheduled__'', - 2),
             (''__interrupt__'', - 3), (''__resume__'', - 4)]"

definition demo_saver :: saver where
  "demo_saver =
     AerospikeSaver_init ''test'' ''lg_cp'' ''lg_cp_w'' ''lg_cp_meta'' None 2
       demo_dumps demo_loads demo_idx_map (\<lambda>v. ''None'')"

definition empty_client :: client where
  "empty_client = \<lparr>recs = (\<lambda>k. None), get_fails = (\<lambda>k. False), put_fails = (\<lambda>k. False)\<rparr>"

definition cfg_base :: dict where
  "cfg_base =
     [(''configurable'',
       PDict [(''thread_id'', PStr ''1''), (''checkpoint_ns'', PStr ''demo''),
              (''user_id'', PStr ''jagrut'')])]"

text \<open>
  Three checkpoints \<open>A\<close>, \<open>B\<close>, \<open>C\<close> without a timestamp of their own, and the clients
  after \<open>put A\<close> at time 5, \<open>put B\<close> at time 6 and \<open>put A\<close> again at time 7.
\<close>

definition cp_A :: dict where
  "cp_A = [(''id'', PStr ''A'')]"

definition cp_B :: dict where
  "cp_B = [(''id'', PStr ''B'')]"

definition cp_C :: dict where
  "cp_C = [(''id'', PStr ''C'')]"

definition demo_c1 :: client where
  "demo_c1 = snd (put demo_saver 5 empty_client cfg_base cp_A [])"

definition demo_c2 :: client where
  "demo_c2 = snd (put demo_saver 6 demo_c1 cfg_base cp_B [])"

definition demo_c3 :: client where
  "demo_c3 = snd (put demo_saver 7 demo_c2 cfg_base cp_A [])"

definition demo_timeline_key :: key where
  "demo_timeline_key = key_timeline demo_saver (PStr ''1'') (PStr ''demo'')"

text \<open>The calls \<open>put A\<close>, \<open>put B\<close>, \<open>put C\<close> in a row, and the client they leave.\<close>

definition demo_calls :: "put_call list" where
  "demo_calls =
     [\<lparr>pc_now = 5, pc_config = cfg_base, pc_checkpoint = cp_A, pc_metadata = []\<rparr>,
      \<lparr>pc_now = 6, pc_config = cfg_base, pc_checkpoint = cp_B, pc_metadata = []\<rparr>,
      \<lparr>pc_now = 7, pc_config = cfg_base, pc_checkpoint = cp_C, pc_metadata = []\<rparr>]"

definition demo_after_calls :: client where
  "demo_after_calls = projr (puts demo_saver empty_client demo_calls)"

text \<open>
  Checkpoint \<open>A\<close> with the timestamp 100, then checkpoint \<open>B\<close> with the older timestamp
  50, and the clients after \<open>put A\<close> and after \<open>put B\<close>.
\<close>

definition cp_A_late :: dict where
  "cp_A_late = [(''id'', PStr ''A''), (''ts'', PInt 100)]"

definition cp_B_early :: dict where
  "cp_B_early = [(''id'', PStr ''B''), (''ts'', PInt 50)]"

definition demo_d1 :: client where
  "demo_d1 = snd (put demo_saver 5 empty_client cfg_base cp_A_late [])"

definition demo_d2 :: client where
  "demo_d2 = snd (put demo_saver 6 demo_d1 cfg_base cp_B_early [])"


text \<open>
  Two clients with a ledger record for checkpoint \<open>A\<close>: one whose record has no bin
  \<open>writes\<close>, one whose bin \<open>writes\<close> is a \<open>str\<close>. \<open>cfg_A\<close> is the configuration of the
  scope with the checkpoint id \<open>A\<close>.
\<close>

definition cfg_A :: dict where
  "cfg_A = scope_config (PStr ''1'') (PStr ''demo'') (PStr ''A'')"

definition demo_writes_key :: key where
  "demo_writes_key = key_writes demo_saver (PStr ''1'') (PStr ''demo'') (PStr ''A'')"

definition ledger_without_writes :: client where
  "ledger_without_writes =
     empty_client\<lparr>recs := (recs empty_client)(demo_writes_key \<mapsto> [(''note'', PStr ''x'')])\<rparr>"

definition ledger_writes_str :: client where
  "ledger_writes_str =
     empty_client\<lparr>recs := (recs empty_client)(demo_writes_key \<mapsto> [(''writes'', PStr ''corrupt'')])\<rparr>"

text \<open>
  The client after \<open>put A\<close> with the metadata \<open>{"source": "input"}\<close> and \<open>put B\<close> with the
  metadata \<open>{"source": "loop"}\<close>, and the tuple \<open>get_tuple\<close> gives for \<open>B\<close>.
\<close>

definition demo_m1 :: client where
  "demo_m1 = snd (put demo_saver 5 empty_client cfg_base cp_A [(''source'', PStr ''input'')])"

definition demo_m2 :: client where
  "demo_m2 = snd (put demo_saver 6 demo_m1 cfg_base cp_B [(''source'', PStr ''loop'')])"

definition tuple_B :: checkpoint_tuple where
  "tuple_B =
     \<lparr>ct_config = scope_config (PStr ''1'') (PStr ''demo'') (PStr ''B''),
      ct_checkpoint = PDict [(''id'', PStr ''B''), (''ts'', PInt 6)],
      ct_metadata = PDict [(''source'', PStr ''loop'')],
      ct_parent_config = None,
      ct_pending_writes = []\<rparr>"

text \<open>The configuration of the scope with the checkpoint id \<open>C\<close>.\<close>

definition cfg_C :: dict where
  "cfg_C = scope_config (PStr ''1'') (PStr ''demo'') (PStr ''C'')"

text \<open>
  Task \<open>t\<close> writes \<open>1\<close> to channel \<open>a\<close> for checkpoint \<open>A\<close>; then, in a second call,
  \<open>2\<close> to channel \<open>a\<close> and \<open>3\<close> to the special channel \<open>__error__\<close>.
\<close>

definition writes_1 :: "(string \<times> pyval) list" where
  "writes_1 = [(''a'', PInt 1)]"

definition writes_2 :: "(string \<times> pyval) list" where
  "writes_2 = [(''a'', PInt 2), (''__error__'', PInt 3)]"

definition demo_w1 :: client where
  "demo_w1 = snd (put_writes demo_saver 5 empty_client cfg_A writes_1 ''t'' [])"

definition demo_w2 :: client where
  "demo_w2 = snd (put_writes demo_saver 6 demo_w1 cfg_A writes_2 ''t'' [])"

text \<open>A client whose record for checkpoint \<open>A\<close> holds a checkpoint payload that does not decode.\<close>

definition corrupt_bins :: dict where
  "corrupt_bins =
     [(''cp_type'', PStr ''msgpack''), (''checkpoint'', PStr ''garbage''),
      (''meta_type'', PStr ''msgpack''), (''metadata'', PList [PDict []])]"

definition corrupt_client :: client where
  "corrupt_client =
     empty_client\<lparr>recs := (recs empty_client)
       (key_cp demo_saver (PStr ''1'') (PStr ''demo'') (PStr ''A'') \<mapsto> corrupt_bins)\<rparr>"

text \<open>
  The client after \<open>put A\<close>, with a ledger record for \<open>A\<close> beside it: one whose bin
  \<open>writes\<close> is a \<open>str\<close>, and one whose only entry has all its fields and a value that
  does not decode. \<open>tuple_A\<close> is the tuple \<open>get_tuple\<close> gives for \<open>A\<close> without them.
\<close>

definition undecodable_entry :: pyval where
  "undecodable_entry =
     PDict [(''task_id'', PStr ''t''), (''task_path'', PStr []), (''channel'', PStr ''a''),
            (''idx'', PInt 0), (''type'', PStr ''msgpack''), (''value'', PStr ''garbage''),
            (''ts'', PInt 5)]"

definition put_then_ledger_str :: client where
  "put_then_ledger_str =
     demo_c1\<lparr>recs := (recs demo_c1)(demo_writes_key \<mapsto> [(''writes'', PStr ''corrupt'')])\<rparr>"

definition put_then_ledger_entry :: client where
  "put_then_ledger_entry =
     demo_c1\<lparr>recs := (recs demo_c1)(demo_writes_key \<mapsto> [(''writes'', PList [undecodable_entry])])\<rparr>"

definition tuple_A :: checkpoint_tuple where
  "tuple_A =
     \<lparr>ct_config = scope_config (PStr ''1'') (PStr ''demo'') (PStr ''A''),
      ct_checkpoint = PDict [(''id'', PStr ''A''), (''ts'', PInt 5)],
      ct_metadata = PDict [],
      ct_parent_config = None,
      ct_pending_writes = []\<rparr>"

section \<open>Basic facts\<close>

lemma ebind_simps [simp]:
  "ebind (Inl e) f = Inl e"
  "ebind (Inr x) f = f x"
  by (simp_all add: ebind_def)

lemma ebind_eq_Inr:
  "ebind m f = Inr y \<longleftrightarrow> (\<exists>x. m = Inr x \<and> f x = Inr y)"
  by (cases m) simp_all

lemma put_record_Inr:
  "put_record c k b = Inr c' \<longleftrightarrow> \<not> put_fails c k \<and> c' = c\<lparr>recs := (recs c)(k \<mapsto> b)\<rparr>"
  by (auto simp: put_record_def)

lemma put_record_Inl:
  "put_record c k b = Inl e \<longleftrightarrow> put_fails c k \<and> e = RuntimeError OpPut k"
  by (auto simp: put_record_def)

lemma get_record_Inr:
  "get_record c k = Inr r \<longleftrightarrow> \<not> get_fails c k \<and> r = recs c k"
  by (auto simp: get_record_def)

lemma json_dumps_Inr: "json_dumps v = Inr t \<longleftrightarrow> jsonable v \<and> t = PJson v"
  by (auto simp: json_dumps_def)

lemma demo_saver_simps [simp]:
  "ns demo_saver = ''test''"
  "set_cp demo_saver = ''lg_cp''"
  "set_writes demo_saver = ''lg_cp_w''"
  "set_meta demo_saver = ''lg_cp_meta''"
  "timeline_max demo_saver = 2"
  "dumps_typed demo_saver = demo_dumps"
  "loads_typed demo_saver = demo_loads"
  "WRITES_IDX_MAP demo_saver = demo_idx_map"
  "py_format demo_saver v = ''None''"
  by (simp_all add: demo_saver_def AerospikeSaver_init_def)

lemma timeline_max_init:
  "0 < timeline_max (AerospikeSaver_init namespace scp swr smeta t tmax dumps loads idx_map fmt)"
  by (simp add: AerospikeSaver_init_def)

lemma empty_client_simps [simp]:
  "recs empty_client k = None"
  "get_fails empty_client k = False"
  "put_fails empty_client k = False"
  by (simp_all add: empty_client_def)

lemma ids_cfg_base [simp]:
  "ids_from_config cfg_base = Inr (PStr ''1'', PStr ''demo'', PNone)"
  by (simp add: ids_from_config_def cfg_section_def cfg_base_def dict_get_def
      dict_get_default_def py_or_def lazy_or_def)

lemma ids_scope_config:
  "truthy t \<Longrightarrow> ids_from_config (scope_config t n i) = Inr (t, py_or n (PStr []), i)"
  by (simp add: ids_from_config_def cfg_section_def scope_config_def dict_get_def
      dict_get_default_def py_or_def lazy_or_def)

lemma ids_empty_config [simp]: "ids_from_config [] = Inl ValueError"
  by (simp add: ids_from_config_def cfg_section_def dict_get_def dict_get_default_def py_or_def
      lazy_or_def)

section \<open>put\_writes with no writes\<close>

text \<open>
  C10. \<open>put_writes\<close> with an empty \<open>writes\<close> returns at once, before the configuration is
  parsed: it returns normally and leaves the client as it was, whatever the
  configuration is, also one without a thread id. With a write to store, the
  configuration is parsed, and the \<open>ValueError\<close> of \<open>_ids_from_config\<close> comes out.
\<close>

theorem put_writes_empty_skips_validation:
  "put_writes sv now_ts c cfg [] task_id task_path = (Inr (), c) \<and>
   (writes \<noteq> [] \<and> ids_from_config cfg = Inl e \<longrightarrow>
      put_writes sv now_ts c cfg writes task_id task_path = (Inl e, c))"
  by (simp add: put_writes_def)

theorem put_writes_empty_skips_validation_witness:
  "ids_from_config [] = Inl ValueError \<and>
   put_writes demo_saver 0 empty_client [] [] ''t'' [] = (Inr (), empty_client) \<and>
   put_writes demo_saver 0 empty_client [] [(''a'', PInt 1)] ''t'' [] =
     (Inl ValueError, empty_client)"
  using put_writes_empty_skips_validation
    [of demo_saver 0 empty_client "[]" "''t''" "[]" "[(''a'', PInt 1)]" ValueError]
  by simp

section \<open>get\_tuple: what is not found\<close>

text \<open>
  \<open>get_tuple\<close> returns \<open>None\<close>, and raises nothing, in each of these cases, the
  backend answering the reads: no checkpoint id in the configuration and no latest
  pointer record; no record under the key of the resolved checkpoint id; a checkpoint
  record whose checkpoint payload or metadata payload does not decode.
\<close>

theorem get_tuple_not_found:
  assumes "ids_from_config cfg = Inr (thread_id, checkpoint_ns, checkpoint_id0)"
  shows "(checkpoint_id0 = PNone \<and>
          \<not> get_fails c (key_latest sv thread_id checkpoint_ns) \<and>
          recs c (key_latest sv thread_id checkpoint_ns) = None
            \<longrightarrow> get_tuple sv c cfg = Inr None) \<and>
         (resolve_checkpoint_id sv c thread_id checkpoint_ns checkpoint_id0 = Inr (Some cid) \<and>
          \<not> get_fails c (key_cp sv thread_id checkpoint_ns cid) \<and>
          recs c (key_cp sv thread_id checkpoint_ns cid) = None
            \<longrightarrow> get_tuple sv c cfg = Inr None) \<and>
         (resolve_checkpoint_id sv c thread_id checkpoint_ns checkpoint_id0 = Inr (Some cid) \<and>
          \<not> get_fails c (key_cp sv thread_id checkpoint_ns cid) \<and>
          recs c (key_cp sv thread_id checkpoint_ns cid) = Some bins \<and>
          (isl (loads_typed sv (dict_get bins ''cp_type'', dict_get bins ''checkpoint'')) \<or>
           isl (loads_typed sv (dict_get bins ''meta_type'', dict_get bins ''metadata'')))
            \<longrightarrow> get_tuple sv c cfg = Inr None)"
proof (intro conjI impI)
  assume "checkpoint_id0 = PNone \<and>
          \<not> get_fails c (key_latest sv thread_id checkpoint_ns) \<and>
          recs c (key_latest sv thread_id checkpoint_ns) = None"
  then show "get_tuple sv c cfg = Inr None"
    using assms by (simp add: get_tuple_def resolve_checkpoint_id_def get_record_def)
next
  assume "resolve_checkpoint_id sv c thread_id checkpoint_ns checkpoint_id0 = Inr (Some cid) \<and>
          \<not> get_fails c (key_cp sv thread_id checkpoint_ns cid) \<and>
          recs c (key_cp sv thread_id checkpoint_ns cid) = None"
  then show "get_tuple sv c cfg = Inr None"
    using assms by (simp add: get_tuple_def get_record_def)
next
  assume h: "resolve_checkpoint_id sv c thread_id checkpoint_ns checkpoint_id0 = Inr (Some cid) \<and>
          \<not> get_fails c (key_cp sv thread_id checkpoint_ns cid) \<and>
          recs c (key_cp sv thread_id checkpoint_ns cid) = Some bins \<and>
          (isl (loads_typed sv (dict_get bins ''cp_type'', dict_get bins ''checkpoint'')) \<or>
           isl (loads_typed sv (dict_get bins ''meta_type'', dict_get bins ''metadata'')))"
  then have "tuple_of_record sv c thread_id checkpoint_ns cid bins = Inr None"
    by (auto simp: tuple_of_record_def Let_def split: sum.splits)
  with h show "get_tuple sv c cfg = Inr None"
    using assms by (simp add: get_tuple_def get_record_def)
qed

theorem get_tuple_not_found_witness:
  "recs empty_client (key_latest demo_saver (PStr ''1'') (PStr ''demo'')) = None \<and>
   get_tuple demo_saver empty_client cfg_base = Inr None \<and>
   recs empty_client (key_cp demo_saver (PStr ''1'') (PStr ''demo'') (PStr ''A'')) = None \<and>
   get_tuple demo_saver empty_client
     (scope_config (PStr ''1'') (PStr ''demo'') (PStr ''A'')) = Inr None \<and>
   recs corrupt_client (key_cp demo_saver (PStr ''1'') (PStr ''demo'') (PStr ''A'')) =
     Some corrupt_bins \<and>
   loads_typed demo_saver (dict_get corrupt_bins ''cp_type'', dict_get corrupt_bins ''checkpoint'') =
     Inl SerdeError \<and>
   get_tuple demo_saver corrupt_client
     (scope_config (PStr ''1'') (PStr ''demo'') (PStr ''A'')) = Inr None"
proof -
  have a: "get_tuple demo_saver empty_client cfg_base = Inr None"
    using get_tuple_not_found
      [of cfg_base "PStr ''1''" "PStr ''demo''" PNone empty_client demo_saver]
    by simp
  have i: "ids_from_config (scope_config (PStr ''1'') (PStr ''demo'') (PStr ''A'')) =
             Inr (PStr ''1'', PStr ''demo'', PStr ''A'')"
    by (simp add: ids_scope_config py_or_def)
  have b: "get_tuple demo_saver empty_client
             (scope_config (PStr ''1'') (PStr ''demo'') (PStr ''A'')) = Inr None"
    using get_tuple_not_found [OF i, of empty_client demo_saver "PStr ''A''"]
    by (simp add: resolve_checkpoint_id_def)
  have l: "loads_typed demo_saver
             (dict_get corrupt_bins ''cp_type'', dict_get corrupt_bins ''checkpoint'') =
           Inl SerdeError"
    by (simp add: corrupt_bins_def dict_get_def)
  have c: "get_tuple demo_saver corrupt_client
             (scope_config (PStr ''1'') (PStr ''demo'') (PStr ''A'')) = Inr None"
    using get_tuple_not_found [OF i, of corrupt_client demo_saver "PStr ''A''" corrupt_bins] l
    by (simp add: resolve_checkpoint_id_def corrupt_client_def)
  show ?thesis using a b c l by (simp add: corrupt_client_def)
qed

text \<open>
  C6 lists the three cases above and closes with: a corrupted record never raises out
  of the read path. The same call of \<open>get_tuple\<close> reads the ledger record of the
  checkpoint, and there only a \<open>KeyError\<close> of an entry is skipped. After \<open>put A\<close>,
  \<open>get_tuple\<close> returns the tuple of \<open>A\<close>; with a ledger record whose bin \<open>writes\<close> is a
  \<open>str\<close> it raises \<open>AttributeError\<close>, by the explicit id and by the latest pointer; with
  a ledger entry whose value does not decode it raises the serializer's exception. The
  checkpoint and metadata payloads are decoded under \<open>except Exception\<close>, and
  \<open>_read_timeline_items\<close> reads its record under \<open>except Exception\<close>.
\<close>

theorem get_tuple_corrupt_ledger_raises:
  "get_tuple demo_saver demo_c1 cfg_A = Inr (Some tuple_A) \<and>
   recs put_then_ledger_str demo_writes_key = Some [(''writes'', PStr ''corrupt'')] \<and>
   get_tuple demo_saver put_then_ledger_str cfg_A = Inl AttributeError \<and>
   get_tuple demo_saver put_then_ledger_str cfg_base = Inl AttributeError \<and>
   recs put_then_ledger_entry demo_writes_key = Some [(''writes'', PList [undecodable_entry])] \<and>
   decode_write demo_saver undecodable_entry = Inl SerdeError \<and>
   get_tuple demo_saver put_then_ledger_entry cfg_A = Inl SerdeError"
  by code_simp

section \<open>The timeline after a put\<close>

lemma key_latest_neq_timeline [simp]:
  "key_latest sv t n \<noteq> key_timeline sv t n"
  "key_timeline sv t n \<noteq> key_latest sv t n"
  by (simp_all add: key_latest_def key_timeline_def)

lemma key_cp_eq_timeline:
  "key_cp sv t n i = key_timeline sv t n \<longleftrightarrow> set_cp sv = set_meta sv \<and> fstr sv i = ''__timeline__''"
  by (auto simp: key_cp_def key_timeline_def)

lemma key_cp_eq_latest:
  "key_cp sv t n i = key_latest sv t n \<longleftrightarrow> set_cp sv = set_meta sv \<and> fstr sv i = ''__latest__''"
  by (auto simp: key_cp_def key_latest_def)

lemma clean_item_Some: "clean_item v = Some (a, b) \<longleftrightarrow> v = PList [a, b] \<and> is_str b"
  by (cases v rule: clean_item.cases) (auto split: if_splits)

lemma clean_items_json:
  "List.map_filter clean_item (map (\<lambda>it. PList [fst it, snd it]) L) = filter (\<lambda>it. is_str (snd it)) L"
  by (induction L) (auto simp: List.map_filter_simps)

lemma map_filter_clean_str: "it \<in> set (List.map_filter clean_item xs) \<Longrightarrow> is_str (snd it)"
  by (cases it) (auto simp: List.map_filter_def clean_item_Some)

lemma read_timeline_items_str:
  "read_timeline_items sv c k = Inr items \<Longrightarrow> it \<in> set items \<Longrightarrow> is_str (snd it)"
  by (auto simp: read_timeline_items_def ebind_eq_Inr get_record_Inr
      dest: map_filter_clean_str split: option.splits sum.splits)

lemma read_timeline_items_Inr_iff:
  "(\<exists>items. read_timeline_items sv c k = Inr items) \<longleftrightarrow> \<not> get_fails c k"
  by (auto simp: read_timeline_items_def get_record_def split: option.splits)

lemma read_timeline_items_cong:
  "recs c k = recs c2 k \<Longrightarrow> get_fails c k = get_fails c2 k \<Longrightarrow>
   read_timeline_items sv c k = read_timeline_items sv c2 k"
  by (simp add: read_timeline_items_def get_record_def)

lemma read_timeline_written:
  "\<not> get_fails c k \<Longrightarrow> recs c k = Some [(''items'', PJson (items_json L))] \<Longrightarrow>
   read_timeline_items sv c k = Inr (filter (\<lambda>it. is_str (snd it)) L)"
  by (simp add: read_timeline_items_def get_record_def dict_get_default_def items_json_def
      clean_items_json)

lemma timeline_insert_eq:
  "timeline_insert sv ts cid L = take (timeline_max sv) ((ts, cid) # filter (\<lambda>it. snd it \<noteq> cid) L)"
  by (simp add: timeline_insert_def Let_def)

lemma timeline_insert_str:
  "is_str cid \<Longrightarrow> \<forall>it\<in>set L. is_str (snd it) \<Longrightarrow> it \<in> set (timeline_insert sv ts cid L) \<Longrightarrow> is_str (snd it)"
  by (auto simp: timeline_insert_eq dest!: in_set_takeD)

lemma put_InrD:
  assumes "put sv now c cfg cp md = (Inr cfg', c')"
  shows "\<exists>thread_id checkpoint_ns parent md1 items.
     ids_from_config cfg = Inr (thread_id, checkpoint_ns, parent) \<and>
     truthy (dict_get cp ''id'') \<and>
     update_from md (dict_get_default cfg ''metadata'' (PDict [])) = Inr md1 \<and>
     \<not> put_fails c (key_cp sv thread_id checkpoint_ns (dict_get cp ''id'')) \<and>
     \<not> put_fails c (key_latest sv thread_id checkpoint_ns) \<and>
     \<not> put_fails c (key_timeline sv thread_id checkpoint_ns) \<and>
     read_timeline_items sv
       (c\<lparr>recs := (recs c)
            (key_cp sv thread_id checkpoint_ns (dict_get cp ''id'') \<mapsto>
               cp_record thread_id checkpoint_ns (dict_get cp ''id'') parent
                 (dumps_typed sv (PDict (stamped now cp))) (dumps_typed sv (PDict md1))
                 (checkpoint_ts now cp),
             key_latest sv thread_id checkpoint_ns \<mapsto>
               latest_record (dict_get cp ''id'') (checkpoint_ts now cp))\<rparr>)
       (key_timeline sv thread_id checkpoint_ns) = Inr items \<and>
     jsonable (items_json (timeline_insert sv (checkpoint_ts now cp) (dict_get cp ''id'') items)) \<and>
     c' = c\<lparr>recs := (recs c)
            (key_cp sv thread_id checkpoint_ns (dict_get cp ''id'') \<mapsto>
               cp_record thread_id checkpoint_ns (dict_get cp ''id'') parent
                 (dumps_typed sv (PDict (stamped now cp))) (dumps_typed sv (PDict md1))
                 (checkpoint_ts now cp),
             key_latest sv thread_id checkpoint_ns \<mapsto>
               latest_record (dict_get cp ''id'') (checkpoint_ts now cp),
             key_timeline sv thread_id checkpoint_ns \<mapsto>
               [(''items'', PJson (items_json (timeline_insert sv (checkpoint_ts now cp) (dict_get cp ''id'') items)))])\<rparr> \<and>
     cfg' = new_config cfg thread_id checkpoint_ns (dict_get cp ''id'')"
  using assms unfolding put_def
  by (auto simp: Let_def put_record_Inr json_dumps_Inr split: sum.splits prod.splits if_splits)

lemma put_timeline:
  assumes p: "put sv now c cfg cp md = (Inr cfg', c')"
    and i: "ids_from_config cfg = Inr (t, n, parent)"
    and s: "is_str (dict_get cp ''id'')"
    and k: "key_cp sv t n (dict_get cp ''id'') \<noteq> key_timeline sv t n"
  shows "\<exists>before. read_timeline_items sv c (key_timeline sv t n) = Inr before \<and>
           read_timeline_items sv c' (key_timeline sv t n) =
             Inr (timeline_insert sv (checkpoint_ts now cp) (dict_get cp ''id'') before)"
proof -
  from put_InrD [OF p] i obtain md1 items where
    mid: "read_timeline_items sv
       (c\<lparr>recs := (recs c)
            (key_cp sv t n (dict_get cp ''id'') \<mapsto>
               cp_record t n (dict_get cp ''id'') parent
                 (dumps_typed sv (PDict (stamped now cp))) (dumps_typed sv (PDict md1))
                 (checkpoint_ts now cp),
             key_latest sv t n \<mapsto>
               latest_record (dict_get cp ''id'') (checkpoint_ts now cp))\<rparr>)
       (key_timeline sv t n) = Inr items"
    and c': "c' = c\<lparr>recs := (recs c)
            (key_cp sv t n (dict_get cp ''id'') \<mapsto>
               cp_record t n (dict_get cp ''id'') parent
                 (dumps_typed sv (PDict (stamped now cp))) (dumps_typed sv (PDict md1))
                 (checkpoint_ts now cp),
             key_latest sv t n \<mapsto>
               latest_record (dict_get cp ''id'') (checkpoint_ts now cp),
             key_timeline sv t n \<mapsto>
               [(''items'', PJson (items_json (timeline_insert sv (checkpoint_ts now cp) (dict_get cp ''id'') items)))])\<rparr>"
    by auto
  have before: "read_timeline_items sv c (key_timeline sv t n) = Inr items"
    using mid k by (subst (asm) read_timeline_items_cong [where ?c2.0 = c]) auto
  then have g: "\<not> get_fails c (key_timeline sv t n)"
    using read_timeline_items_Inr_iff by blast
  have str: "\<forall>it\<in>set items. is_str (snd it)"
    using before read_timeline_items_str by blast
  have "read_timeline_items sv c' (key_timeline sv t n) =
          Inr (filter (\<lambda>it. is_str (snd it))
                 (timeline_insert sv (checkpoint_ts now cp) (dict_get cp ''id'') items))"
    by (rule read_timeline_written) (use g in \<open>simp_all add: c'\<close>)
  moreover have "filter (\<lambda>it. is_str (snd it))
                 (timeline_insert sv (checkpoint_ts now cp) (dict_get cp ''id'') items) =
                 timeline_insert sv (checkpoint_ts now cp) (dict_get cp ''id'') items"
    using timeline_insert_str [OF s str] by (simp add: filter_id_conv)
  ultimately show ?thesis using before by simp
qed

section \<open>The timeline holds every checkpoint id once\<close>

lemma plain_id_key:
  "plain_id sv i \<Longrightarrow> key_cp sv t n i \<noteq> key_timeline sv t n"
  by (auto simp: plain_id_def key_cp_eq_timeline fstr_def split: pyval.splits)

lemma plain_id_str: "plain_id sv i \<Longrightarrow> is_str i"
  by (auto simp: plain_id_def split: pyval.splits)

lemma count_head_insert:
  "0 < n \<Longrightarrow> filter (\<lambda>it. snd it = x) (take n ((ts, x) # filter (\<lambda>it. snd it \<noteq> x) L)) = [(ts, x)]"
proof -
  assume "0 < n"
  then obtain m where n: "n = Suc m" by (cases n) auto
  have "filter (\<lambda>it. snd it = x) (take m (filter (\<lambda>it. snd it \<noteq> x) L)) = []"
    by (auto simp: filter_empty_conv dest!: in_set_takeD)
  then show ?thesis by (simp add: n)
qed

lemma distinct_insert:
  "distinct (map snd L) \<Longrightarrow> distinct (map snd (take n ((ts, x) # filter (\<lambda>it. snd it \<noteq> x) L)))"
proof -
  assume "distinct (map snd L)"
  then have "distinct (map snd ((ts, x) # filter (\<lambda>it. snd it \<noteq> x) L))"
    by (auto simp: distinct_map_filter)
  then show ?thesis
    by (metis distinct_take take_map)
qed

lemma length_insert_present:
  assumes "x \<in> snd ` set L"
  shows "length (take n ((ts, x) # filter (\<lambda>it. snd it \<noteq> x) L)) \<le> length L"
proof -
  from assms obtain it where "it \<in> set L" "\<not> snd it \<noteq> x" by auto
  then have "length (filter (\<lambda>it. snd it \<noteq> x) L) < length L"
    by (rule length_filter_less)
  then show ?thesis by simp
qed

text \<open>
  C3. A \<open>put\<close> that returns, for a checkpoint whose id is the \<open>str\<close> \<open>X\<close>, leaves the
  timeline of the scope as the timeline before the call without its entries for \<open>X\<close>,
  with the new entry for \<open>X\<close> at the head, cut to \<open>timeline_max\<close>. So \<open>X\<close> is at the
  head, the timeline holds exactly one entry for \<open>X\<close>, a timeline that already had \<open>X\<close>
  does not grow, and a timeline without repeated ids stays one. (Where the checkpoint
  records share the set of the timeline record, \<open>X\<close> is not the token \<open>__timeline__\<close>.)
\<close>

theorem put_moves_id_to_head:
  assumes "put sv now c cfg checkpoint metadata = (Inr cfg', c')"
    and "ids_from_config cfg = Inr (thread_id, checkpoint_ns, parent)"
    and "dict_get checkpoint ''id'' = PStr X"
    and "\<not> (set_cp sv = set_meta sv \<and> X = ''__timeline__'')"
    and "0 < timeline_max sv"
  shows "\<exists>before after.
           read_timeline_items sv c (key_timeline sv thread_id checkpoint_ns) = Inr before \<and>
           read_timeline_items sv c' (key_timeline sv thread_id checkpoint_ns) = Inr after \<and>
           after = take (timeline_max sv)
                     ((checkpoint_ts now checkpoint, PStr X) #
                      filter (\<lambda>it. snd it \<noteq> PStr X) before) \<and>
           hd after = (checkpoint_ts now checkpoint, PStr X) \<and>
           filter (\<lambda>it. snd it = PStr X) after = [(checkpoint_ts now checkpoint, PStr X)] \<and>
           (PStr X \<in> snd ` set before \<longrightarrow> length after \<le> length before) \<and>
           (distinct (map snd before) \<longrightarrow> distinct (map snd after))"
proof -
  have pl: "plain_id sv (dict_get checkpoint ''id'')"
    using assms(3,4) by (simp add: plain_id_def)
  have "\<exists>before. read_timeline_items sv c (key_timeline sv thread_id checkpoint_ns) = Inr before \<and>
           read_timeline_items sv c' (key_timeline sv thread_id checkpoint_ns) =
             Inr (timeline_insert sv (checkpoint_ts now checkpoint) (dict_get checkpoint ''id'') before)"
    by (rule put_timeline [OF assms(1,2) plain_id_str [OF pl] plain_id_key [OF pl]])
  then obtain before where
    b: "read_timeline_items sv c (key_timeline sv thread_id checkpoint_ns) = Inr before"
    and a: "read_timeline_items sv c' (key_timeline sv thread_id checkpoint_ns) =
              Inr (timeline_insert sv (checkpoint_ts now checkpoint) (PStr X) before)"
    unfolding assms(3) by (elim exE conjE)
  define after where "after = take (timeline_max sv)
                  ((checkpoint_ts now checkpoint, PStr X) # filter (\<lambda>it. snd it \<noteq> PStr X) before)"
  have a': "read_timeline_items sv c' (key_timeline sv thread_id checkpoint_ns) = Inr after"
    using a by (simp add: timeline_insert_eq after_def)
  have 1: "hd after = (checkpoint_ts now checkpoint, PStr X)"
    using assms(5) unfolding after_def by (cases "timeline_max sv") simp_all
  have 2: "filter (\<lambda>it. snd it = PStr X) after = [(checkpoint_ts now checkpoint, PStr X)]"
    unfolding after_def using assms(5) by (rule count_head_insert)
  have 3: "PStr X \<in> snd ` set before \<longrightarrow> length after \<le> length before"
    unfolding after_def by (rule impI) (rule length_insert_present)
  have 4: "distinct (map snd before) \<longrightarrow> distinct (map snd after)"
    unfolding after_def by (rule impI) (rule distinct_insert)
  show ?thesis
    apply (rule exI [of _ before])
    apply (rule exI [of _ after])
    using b a' 1 2 3 4 after_def apply simp
    done
qed

theorem put_moves_id_to_head_witness:
  "read_timeline_items demo_saver demo_c2 demo_timeline_key =
     Inr [(PInt 6, PStr ''B''), (PInt 5, PStr ''A'')] \<and>
   read_timeline_items demo_saver demo_c3 demo_timeline_key =
     Inr [(PInt 7, PStr ''A''), (PInt 6, PStr ''B'')]"
proof -
  have "fst (put demo_saver 7 demo_c2 cfg_base cp_A []) =
          Inr (new_config cfg_base (PStr ''1'') (PStr ''demo'') (PStr ''A''))"
    by code_simp
  then have p: "put demo_saver 7 demo_c2 cfg_base cp_A [] =
                  (Inr (new_config cfg_base (PStr ''1'') (PStr ''demo'') (PStr ''A'')), demo_c3)"
    by (simp add: prod_eq_iff demo_c3_def)
  have b: "read_timeline_items demo_saver demo_c2 demo_timeline_key =
             Inr [(PInt 6, PStr ''B''), (PInt 5, PStr ''A'')]"
    by code_simp
  have h3: "dict_get cp_A ''id'' = PStr ''A''"
    by (simp add: cp_A_def dict_get_def)
  have h4: "\<not> (set_cp demo_saver = set_meta demo_saver \<and> ''A'' = ''__timeline__'')"
    by simp
  have h5: "0 < timeline_max demo_saver"
    by simp
  from put_moves_id_to_head [OF p ids_cfg_base h3 h4 h5]
  obtain before after where
    "read_timeline_items demo_saver demo_c2
       (key_timeline demo_saver (PStr ''1'') (PStr ''demo'')) = Inr before"
    and "read_timeline_items demo_saver demo_c3
       (key_timeline demo_saver (PStr ''1'') (PStr ''demo'')) = Inr after"
    and "after = take (timeline_max demo_saver)
                   ((checkpoint_ts 7 cp_A, PStr ''A'') # filter (\<lambda>it. snd it \<noteq> PStr ''A'') before)"
    by blast
  with b show ?thesis
    by (simp add: demo_timeline_key_def checkpoint_ts_def cp_A_def dict_get_def)
qed

section \<open>The timeline is capped\<close>

lemma prefix_take_le:
  "prefix xs ys \<Longrightarrow> length xs \<le> m \<Longrightarrow> prefix xs (take m ys)"
  by (auto simp: prefix_def)

lemma insert_keeps_prefix:
  assumes pre: "prefix (take cap P) T"
    and new: "snd e \<notin> snd ` set P"
  shows "prefix (take cap (e # P)) (take cap (e # filter (\<lambda>it. snd it \<noteq> snd e) T))"
proof (cases cap)
  case 0
  then show ?thesis by simp
next
  case (Suc m)
  define Q where "Q = take cap P"
  from pre obtain R where T: "T = Q @ R" by (auto simp: prefix_def Q_def)
  have "snd it \<noteq> snd e" if "it \<in> set Q" for it
  proof -
    from that have "it \<in> set P" unfolding Q_def by (rule in_set_takeD)
    then have "snd it \<in> snd ` set P" by (rule imageI)
    with new show ?thesis by metis
  qed
  then have f: "filter (\<lambda>it. snd it \<noteq> snd e) Q = Q"
    by (simp add: filter_id_conv)
  have "take m Q = take m P"
    by (simp add: Q_def Suc min_def)
  then have "prefix (take m P) Q"
    by (metis take_is_prefix)
  then have "prefix (take m P) (Q @ filter (\<lambda>it. snd it \<noteq> snd e) R)"
    by (rule prefix_prefix)
  then have "prefix (take m P) (take m (Q @ filter (\<lambda>it. snd it \<noteq> snd e) R))"
    by (rule prefix_take_le) simp
  moreover have "take cap (e # P) = e # take m P"
    by (simp add: Suc)
  moreover have "take cap (e # filter (\<lambda>it. snd it \<noteq> snd e) T) =
                   e # take m (Q @ filter (\<lambda>it. snd it \<noteq> snd e) R)"
    by (simp add: Suc T f)
  ultimately show ?thesis by simp
qed

lemma prefix_full:
  "prefix xs ys \<Longrightarrow> length ys \<le> length xs \<Longrightarrow> ys = xs"
  by (auto simp: prefix_def)

lemma call_in_scopeD:
  "call_in_scope t n call \<Longrightarrow> \<exists>parent. ids_from_config (pc_config call) = Inr (t, n, parent)"
  by (auto simp: call_in_scope_def split: sum.splits)

lemma puts_prefix:
  assumes "puts sv c calls = Inr c'"
    and "\<forall>call\<in>set calls. call_in_scope t n call \<and> plain_id sv (call_id call)"
    and "distinct (map call_id calls)"
    and "read_timeline_items sv c (key_timeline sv t n) = Inr T"
    and "prefix (take (timeline_max sv) P) T"
    and "\<forall>call\<in>set calls. call_id call \<notin> snd ` set P"
  shows "\<exists>T'. read_timeline_items sv c' (key_timeline sv t n) = Inr T' \<and>
              prefix (take (timeline_max sv) (rev (map call_entry calls) @ P)) T' \<and>
              (calls \<noteq> [] \<longrightarrow> length T' \<le> timeline_max sv)"
  using assms
proof (induction calls arbitrary: c T P)
  case Nil
  then show ?case by simp
next
  case (Cons call rest)
  from Cons.prems(1) obtain cfg' c1 where
    p: "put sv (pc_now call) c (pc_config call) (pc_checkpoint call) (pc_metadata call) = (Inr cfg', c1)"
    and r: "puts sv c1 rest = Inr c'"
    by (auto split: prod.splits sum.splits)
  from Cons.prems(2) have sc: "call_in_scope t n call" and pl: "plain_id sv (call_id call)"
    by simp_all
  from call_in_scopeD [OF sc] obtain parent where
    i: "ids_from_config (pc_config call) = Inr (t, n, parent)" by blast
  have pl': "plain_id sv (dict_get (pc_checkpoint call) ''id'')"
    using pl by (simp add: call_id_def)
  from put_timeline [OF p i plain_id_str [OF pl'] plain_id_key [OF pl']] Cons.prems(4)
  have T1: "read_timeline_items sv c1 (key_timeline sv t n) =
              Inr (take (timeline_max sv)
                     (call_entry call # filter (\<lambda>it. snd it \<noteq> snd (call_entry call)) T))"
    by (auto simp: timeline_insert_eq call_entry_def call_id_def)
  let ?T1 = "take (timeline_max sv)
               (call_entry call # filter (\<lambda>it. snd it \<noteq> snd (call_entry call)) T)"
  have new: "snd (call_entry call) \<notin> snd ` set P"
    using Cons.prems(6) by (simp add: call_entry_def)
  have pre1: "prefix (take (timeline_max sv) (call_entry call # P)) ?T1"
    by (rule insert_keeps_prefix [OF Cons.prems(5) new])
  have fresh: "\<forall>x\<in>set rest. call_id x \<notin> snd ` set (call_entry call # P)"
  proof
    fix x assume x: "x \<in> set rest"
    from Cons.prems(3) have "call_id call \<notin> call_id ` set rest" by simp
    with x have "call_id x \<noteq> call_id call" by (metis imageI)
    moreover from Cons.prems(6) x have "call_id x \<notin> snd ` set P" by simp
    ultimately show "call_id x \<notin> snd ` set (call_entry call # P)"
      by (simp add: call_entry_def)
  qed
  have sc_rest: "\<forall>call\<in>set rest. call_in_scope t n call \<and> plain_id sv (call_id call)"
    using Cons.prems(2) by simp
  have d_rest: "distinct (map call_id rest)"
    using Cons.prems(3) by simp
  have "\<exists>T'. read_timeline_items sv c' (key_timeline sv t n) = Inr T' \<and>
              prefix (take (timeline_max sv) (rev (map call_entry rest) @ call_entry call # P)) T' \<and>
              (rest \<noteq> [] \<longrightarrow> length T' \<le> timeline_max sv)"
    by (rule Cons.IH [OF r sc_rest d_rest T1 pre1 fresh])
  then obtain T' where
    T': "read_timeline_items sv c' (key_timeline sv t n) = Inr T'"
    and pre': "prefix (take (timeline_max sv) (rev (map call_entry rest) @ call_entry call # P)) T'"
    and len': "rest \<noteq> [] \<longrightarrow> length T' \<le> timeline_max sv"
    by (elim exE conjE)
  have "length T' \<le> timeline_max sv"
  proof (cases rest)
    case Nil
    with r T1 T' show ?thesis by simp
  next
    case (Cons a list)
    with len' show ?thesis by simp
  qed
  with T' pre' show ?case by simp
qed


lemma puts_length:
  assumes "puts sv c calls = Inr c'"
    and "calls \<noteq> []"
    and "\<forall>call\<in>set calls. call_in_scope t n call \<and> plain_id sv (call_id call)"
  shows "\<exists>T'. read_timeline_items sv c' (key_timeline sv t n) = Inr T' \<and>
              length T' \<le> timeline_max sv"
  using assms
proof (induction calls arbitrary: c)
  case Nil
  then show ?case by simp
next
  case (Cons call rest)
  from Cons.prems(1) obtain cfg' c1 where
    p: "put sv (pc_now call) c (pc_config call) (pc_checkpoint call) (pc_metadata call) = (Inr cfg', c1)"
    and r: "puts sv c1 rest = Inr c'"
    by (auto split: prod.splits sum.splits)
  show ?case
  proof (cases rest)
    case Nil
    from Cons.prems(3) have sc: "call_in_scope t n call" and pl: "plain_id sv (call_id call)"
      by simp_all
    from call_in_scopeD [OF sc] obtain parent where
      i: "ids_from_config (pc_config call) = Inr (t, n, parent)" by blast
    have pl': "plain_id sv (dict_get (pc_checkpoint call) ''id'')"
      using pl by (simp add: call_id_def)
    from put_timeline [OF p i plain_id_str [OF pl'] plain_id_key [OF pl']]
    obtain before where
      "read_timeline_items sv c1 (key_timeline sv t n) =
         Inr (timeline_insert sv (checkpoint_ts (pc_now call) (pc_checkpoint call))
                (dict_get (pc_checkpoint call) ''id'') before)"
      by (elim exE conjE)
    moreover have "c' = c1" using r Nil by simp
    ultimately show ?thesis by (simp add: timeline_insert_eq)
  next
    case (Cons a list)
    then have ne: "rest \<noteq> []" by simp
    have sc_rest: "\<forall>call\<in>set rest. call_in_scope t n call \<and> plain_id sv (call_id call)"
      using Cons.prems(3) by simp
    show ?thesis by (rule Cons.IH [OF r ne sc_rest])
  qed
qed

text \<open>
  C2. After any sequence of at least one \<open>put\<close> call in a scope, each returning, the
  timeline record of the scope holds at most \<open>timeline_max\<close> entries. When the ids of
  the calls are distinct and there are at least \<open>timeline_max\<close> of them, it holds
  exactly \<open>timeline_max\<close> entries: those of the last \<open>timeline_max\<close> calls, newest
  first, so the oldest entries are the ones dropped. (The ids are plain \<open>str\<close>s, and
  not the token \<open>__timeline__\<close> where the checkpoint records share the set of the
  timeline record.)
\<close>

theorem timeline_capped_most_recent:
  assumes "puts sv c calls = Inr c'"
    and "calls \<noteq> []"
    and "\<forall>call\<in>set calls. call_in_scope thread_id checkpoint_ns call \<and> plain_id sv (call_id call)"
  shows "\<exists>items. read_timeline_items sv c' (key_timeline sv thread_id checkpoint_ns) = Inr items \<and>
           length items \<le> timeline_max sv \<and>
           (distinct (map call_id calls) \<and> timeline_max sv \<le> length calls \<longrightarrow>
              length items = timeline_max sv \<and>
              items = take (timeline_max sv) (rev (map call_entry calls)) \<and>
              map snd items = take (timeline_max sv) (rev (map call_id calls)))"
proof -
  from puts_length [OF assms] obtain items where
    rd: "read_timeline_items sv c' (key_timeline sv thread_id checkpoint_ns) = Inr items"
    and len: "length items \<le> timeline_max sv"
    by (elim exE conjE)
  have full: "distinct (map call_id calls) \<and> timeline_max sv \<le> length calls \<longrightarrow>
              length items = timeline_max sv \<and>
              items = take (timeline_max sv) (rev (map call_entry calls)) \<and>
              map snd items = take (timeline_max sv) (rev (map call_id calls))"
  proof (intro impI, elim conjE)
    assume d: "distinct (map call_id calls)" and n: "timeline_max sv \<le> length calls"
    from assms(2) obtain call rest where cs: "calls = call # rest" by (cases calls) auto
    from assms(1) cs obtain cfg' c1 where
      p: "put sv (pc_now call) c (pc_config call) (pc_checkpoint call) (pc_metadata call) = (Inr cfg', c1)"
      by (auto split: prod.splits sum.splits)
    from assms(3) cs have sc: "call_in_scope thread_id checkpoint_ns call"
      and pl: "plain_id sv (call_id call)" by simp_all
    from call_in_scopeD [OF sc] obtain parent where
      i: "ids_from_config (pc_config call) = Inr (thread_id, checkpoint_ns, parent)" by blast
    have pl': "plain_id sv (dict_get (pc_checkpoint call) ''id'')"
      using pl by (simp add: call_id_def)
    from put_timeline [OF p i plain_id_str [OF pl'] plain_id_key [OF pl']]
    obtain T where T: "read_timeline_items sv c (key_timeline sv thread_id checkpoint_ns) = Inr T"
      by (elim exE conjE)
    have e: "prefix (take (timeline_max sv) []) T" by simp
    have f: "\<forall>call\<in>set calls. call_id call \<notin> snd ` set []" by simp
    from puts_prefix [OF assms(1) assms(3) d T e f] rd
    have pre: "prefix (take (timeline_max sv) (rev (map call_entry calls))) items"
      by auto
    have "length (take (timeline_max sv) (rev (map call_entry calls))) = timeline_max sv"
      using n by simp
    with len have it: "items = take (timeline_max sv) (rev (map call_entry calls))"
      using prefix_full [OF pre] by simp
    have "map snd (rev (map call_entry calls)) = rev (map call_id calls)"
      by (simp add: rev_map call_entry_def)
    then have "map snd items = take (timeline_max sv) (rev (map call_id calls))"
      unfolding it take_map [symmetric] by simp
    with it n show "length items = timeline_max sv \<and>
              items = take (timeline_max sv) (rev (map call_entry calls)) \<and>
              map snd items = take (timeline_max sv) (rev (map call_id calls))"
      by simp
  qed
  show ?thesis
    by (intro exI [of _ items] conjI rd len full)
qed

theorem timeline_capped_most_recent_witness:
  "puts demo_saver empty_client demo_calls = Inr demo_after_calls \<and>
   distinct (map call_id demo_calls) \<and>
   timeline_max demo_saver \<le> length demo_calls \<and>
   read_timeline_items demo_saver demo_after_calls demo_timeline_key =
     Inr [(PInt 7, PStr ''C''), (PInt 6, PStr ''B'')]"
proof -
  have "\<not> isl (puts demo_saver empty_client demo_calls)"
    by code_simp
  then have p: "puts demo_saver empty_client demo_calls = Inr demo_after_calls"
    by (simp add: demo_after_calls_def)
  have ne: "demo_calls \<noteq> []"
    by (simp add: demo_calls_def)
  have sc: "\<forall>call\<in>set demo_calls.
              call_in_scope (PStr ''1'') (PStr ''demo'') call \<and> plain_id demo_saver (call_id call)"
    by (simp add: demo_calls_def call_in_scope_def plain_id_def call_id_def dict_get_def
        cp_A_def cp_B_def cp_C_def)
  have d: "distinct (map call_id demo_calls)"
    by (simp add: demo_calls_def call_id_def dict_get_def cp_A_def cp_B_def cp_C_def)
  have n: "timeline_max demo_saver \<le> length demo_calls"
    by (simp add: demo_calls_def)
  from timeline_capped_most_recent [OF p ne sc] d n
  have "read_timeline_items demo_saver demo_after_calls
          (key_timeline demo_saver (PStr ''1'') (PStr ''demo'')) =
        Inr (take (timeline_max demo_saver) (rev (map call_entry demo_calls)))"
    by auto
  then have "read_timeline_items demo_saver demo_after_calls demo_timeline_key =
     Inr [(PInt 7, PStr ''C''), (PInt 6, PStr ''B'')]"
    by (simp add: demo_timeline_key_def demo_calls_def call_entry_def call_id_def
        checkpoint_ts_def dict_get_def cp_A_def cp_B_def cp_C_def)
  with p d n show ?thesis by simp
qed

section \<open>The latest pointer: the last write wins\<close>

lemma put_get_fails:
  "put sv now c cfg cp md = (Inr cfg', c') \<Longrightarrow> get_fails c' = get_fails c"
  by (drule put_InrD) auto

lemma serde_roundtripD:
  "serde_roundtrip sv \<Longrightarrow> fst (dumps_typed sv v) \<noteq> PNone"
  "serde_roundtrip sv \<Longrightarrow> snd (dumps_typed sv v) \<noteq> PNone"
  "serde_roundtrip sv \<Longrightarrow> loads_typed sv (fst (dumps_typed sv v), snd (dumps_typed sv v)) = Inr v"
  "serde_roundtrip sv \<Longrightarrow> loads_typed sv (dumps_typed sv v) = Inr v"
  by (simp_all add: serde_roundtrip_def)

lemma demo_serde_roundtrip: "serde_roundtrip demo_saver"
  by (simp add: serde_roundtrip_def demo_dumps_def)

lemma tuple_of_cp_record:
  assumes "serde_roundtrip sv"
    and "read_pending_writes sv c (key_writes sv t n i) = Inr pending"
  shows "tuple_of_record sv c t n i
           (cp_record t n i parent (dumps_typed sv cp) (dumps_typed sv md) ts) =
         Inr (Some \<lparr>ct_config = scope_config t n i,
                    ct_checkpoint = cp,
                    ct_metadata = md,
                    ct_parent_config =
                      (if truthy parent then Some (scope_config t n parent) else None),
                    ct_pending_writes = pending\<rparr>)"
  using assms
  by (simp add: tuple_of_record_def cp_record_def dict_get_def parent_config_of_def
      serde_roundtripD Let_def)

text \<open>
  C1. After \<open>put\<close> of a checkpoint \<open>A\<close> and then \<open>put\<close> of a checkpoint \<open>B\<close> in one
  scope, both returning, \<open>get_tuple\<close> with no checkpoint id returns checkpoint \<open>B\<close>: the
  tuple carries the id of \<open>B\<close>, the checkpoint and the metadata as \<open>put\<close> stored them,
  and the parent of the second call. Nothing is assumed about the timestamps of \<open>A\<close>
  and \<open>B\<close>: the pointer is overwritten, never compared. The backend answers the reads,
  the serializer round-trips, the ledger of \<open>B\<close> is readable, and the id of \<open>B\<close> is not a
  reserved token where the checkpoint records share the set of the pointer record.
\<close>

theorem latest_pointer_last_write_wins:
  assumes putA: "put sv nowA c0 cfgA cpA mdA = (Inr cfgA', c1)"
    and putB: "put sv nowB c1 cfgB cpB mdB = (Inr cfgB', c2)"
    and idsA: "ids_from_config cfgA = Inr (thread_id, checkpoint_ns, parentA)"
    and idsB: "ids_from_config cfgB = Inr (thread_id, checkpoint_ns, parentB)"
    and ids: "ids_from_config cfg = Inr (thread_id, checkpoint_ns, PNone)"
    and free: "\<not> (set_cp sv = set_meta sv \<and>
                  (fstr sv (dict_get cpB ''id'') = ''__latest__'' \<or>
                   fstr sv (dict_get cpB ''id'') = ''__timeline__''))"
    and serde: "serde_roundtrip sv"
    and gl: "\<not> get_fails c0 (key_latest sv thread_id checkpoint_ns)"
    and gc: "\<not> get_fails c0 (key_cp sv thread_id checkpoint_ns (dict_get cpB ''id''))"
    and pw: "read_pending_writes sv c2
               (key_writes sv thread_id checkpoint_ns (dict_get cpB ''id'')) = Inr pending"
  shows "\<exists>mdB1.
           update_from mdB (dict_get_default cfgB ''metadata'' (PDict [])) = Inr mdB1 \<and>
           get_tuple sv c2 cfg =
             Inr (Some \<lparr>ct_config = scope_config thread_id checkpoint_ns (dict_get cpB ''id''),
                        ct_checkpoint = PDict (stamped nowB cpB),
                        ct_metadata = PDict mdB1,
                        ct_parent_config =
                          (if truthy parentB
                           then Some (scope_config thread_id checkpoint_ns parentB) else None),
                        ct_pending_writes = pending\<rparr>)"
proof -
  let ?i = "dict_get cpB ''id''"
  let ?kcp = "key_cp sv thread_id checkpoint_ns ?i"
  let ?kl = "key_latest sv thread_id checkpoint_ns"
  let ?ktl = "key_timeline sv thread_id checkpoint_ns"
  from put_InrD [OF putB] idsB obtain md1 items where
    md1: "update_from mdB (dict_get_default cfgB ''metadata'' (PDict [])) = Inr md1"
    and c2: "c2 = c1\<lparr>recs := (recs c1)
            (?kcp \<mapsto>
               cp_record thread_id checkpoint_ns ?i parentB
                 (dumps_typed sv (PDict (stamped nowB cpB))) (dumps_typed sv (PDict md1))
                 (checkpoint_ts nowB cpB),
             ?kl \<mapsto> latest_record ?i (checkpoint_ts nowB cpB),
             ?ktl \<mapsto>
               [(''items'', PJson (items_json (timeline_insert sv (checkpoint_ts nowB cpB) ?i items)))])\<rparr>"
    by auto
  have gf: "get_fails c2 = get_fails c0"
    using put_get_fails [OF putA] put_get_fails [OF putB] by simp
  have k1: "?kcp \<noteq> ?kl" and k2: "?kcp \<noteq> ?ktl"
    using free by (auto simp: key_cp_eq_latest key_cp_eq_timeline)
  have rl: "recs c2 ?kl = Some (latest_record ?i (checkpoint_ts nowB cpB))"
    by (simp add: c2)
  have rc: "recs c2 ?kcp = Some (cp_record thread_id checkpoint_ns ?i parentB
                 (dumps_typed sv (PDict (stamped nowB cpB))) (dumps_typed sv (PDict md1))
                 (checkpoint_ts nowB cpB))"
    using k1 k2 by (simp add: c2)
  have res: "resolve_checkpoint_id sv c2 thread_id checkpoint_ns PNone = Inr (Some ?i)"
    using gl by (simp add: resolve_checkpoint_id_def get_record_def gf rl latest_record_def
        dict_has_def dict_get_def)
  have "get_tuple sv c2 cfg =
          tuple_of_record sv c2 thread_id checkpoint_ns ?i
            (cp_record thread_id checkpoint_ns ?i parentB
                 (dumps_typed sv (PDict (stamped nowB cpB))) (dumps_typed sv (PDict md1))
                 (checkpoint_ts nowB cpB))"
    using gc by (simp add: get_tuple_def ids res get_record_def gf rc)
  also have "\<dots> = Inr (Some \<lparr>ct_config = scope_config thread_id checkpoint_ns ?i,
                        ct_checkpoint = PDict (stamped nowB cpB),
                        ct_metadata = PDict md1,
                        ct_parent_config =
                          (if truthy parentB
                           then Some (scope_config thread_id checkpoint_ns parentB) else None),
                        ct_pending_writes = pending\<rparr>)"
    by (rule tuple_of_cp_record [OF serde pw])
  finally show ?thesis using md1 by simp
qed


theorem latest_pointer_last_write_wins_witness:
  "checkpoint_ts 5 cp_A_late = PInt 100 \<and>
   checkpoint_ts 6 cp_B_early = PInt 50 \<and>
   get_tuple demo_saver demo_d2 cfg_base =
     Inr (Some \<lparr>ct_config = scope_config (PStr ''1'') (PStr ''demo'') (PStr ''B''),
                ct_checkpoint = PDict cp_B_early,
                ct_metadata = PDict [],
                ct_parent_config = None,
                ct_pending_writes = []\<rparr>)"
proof -
  have "fst (put demo_saver 5 empty_client cfg_base cp_A_late []) =
          Inr (new_config cfg_base (PStr ''1'') (PStr ''demo'') (PStr ''A''))"
    by code_simp
  then have pA: "put demo_saver 5 empty_client cfg_base cp_A_late [] =
                  (Inr (new_config cfg_base (PStr ''1'') (PStr ''demo'') (PStr ''A'')), demo_d1)"
    by (simp add: prod_eq_iff demo_d1_def)
  have "fst (put demo_saver 6 demo_d1 cfg_base cp_B_early []) =
          Inr (new_config cfg_base (PStr ''1'') (PStr ''demo'') (PStr ''B''))"
    by code_simp
  then have pB: "put demo_saver 6 demo_d1 cfg_base cp_B_early [] =
                  (Inr (new_config cfg_base (PStr ''1'') (PStr ''demo'') (PStr ''B'')), demo_d2)"
    by (simp add: prod_eq_iff demo_d2_def)
  have idB: "dict_get cp_B_early ''id'' = PStr ''B''"
    by (simp add: cp_B_early_def dict_get_def)
  have free: "\<not> (set_cp demo_saver = set_meta demo_saver \<and>
                  (fstr demo_saver (dict_get cp_B_early ''id'') = ''__latest__'' \<or>
                   fstr demo_saver (dict_get cp_B_early ''id'') = ''__timeline__''))"
    by simp
  have gl: "\<not> get_fails empty_client (key_latest demo_saver (PStr ''1'') (PStr ''demo''))"
    by simp
  have gc: "\<not> get_fails empty_client
               (key_cp demo_saver (PStr ''1'') (PStr ''demo'') (dict_get cp_B_early ''id''))"
    by simp
  have "read_pending_writes demo_saver demo_d2
               (key_writes demo_saver (PStr ''1'') (PStr ''demo'') (PStr ''B'')) = Inr []"
    by code_simp
  then have pw: "read_pending_writes demo_saver demo_d2
               (key_writes demo_saver (PStr ''1'') (PStr ''demo'') (dict_get cp_B_early ''id'')) = Inr []"
    by (simp add: idB)
  have ts: "checkpoint_ts 5 cp_A_late = PInt 100 \<and> checkpoint_ts 6 cp_B_early = PInt 50"
    by (simp add: checkpoint_ts_def cp_A_late_def cp_B_early_def dict_get_def)
  have st: "stamped 6 cp_B_early = cp_B_early"
    by (simp add: stamped_def cp_B_early_def dict_get_def)
  have md: "update_from [] (dict_get_default cfg_base ''metadata'' (PDict [])) = Inr []"
    by (simp add: cfg_base_def dict_get_default_def dict_update_def)
  from latest_pointer_last_write_wins
         [OF pA pB ids_cfg_base ids_cfg_base ids_cfg_base free demo_serde_roundtrip gl gc pw]
  show ?thesis
    using ts by (simp add: md st idB)
qed

section \<open>put when the pointer or the timeline update fails\<close>

lemma read_timeline_items_Inl:
  "read_timeline_items sv c k = Inl e \<longleftrightarrow> get_fails c k \<and> e = RuntimeError OpGet k"
  by (auto simp: read_timeline_items_def get_record_def split: option.splits)

lemma json_dumps_Inl: "json_dumps v = Inl e \<Longrightarrow> e = TypeError"
  by (auto simp: json_dumps_def split: if_splits)




section \<open>put\_writes on a malformed ledger record\<close>

text \<open>
  C8 says that \<open>put_writes\<close> treats a ledger record whose field \<open>writes\<close> is missing or
  not a list as an empty ledger. The code takes \<open>bins.get("writes")\<close> as it is and
  iterates it: on a record without the bin it raises \<open>TypeError\<close> (\<open>None\<close> is not
  iterable), on a \<open>str\<close> it raises \<open>AttributeError\<close>, and nothing is stored. The read
  path of \<open>get_tuple\<close> (\<open>wbins.get("writes") or []\<close>) reads the first record as an
  empty ledger.
\<close>

theorem put_writes_malformed_ledger_raises:
  "recs ledger_without_writes demo_writes_key = Some [(''note'', PStr ''x'')] \<and>
   fst (put_writes demo_saver 5 ledger_without_writes cfg_A [(''a'', PInt 1)] ''t'' []) =
     Inl TypeError \<and>
   recs ledger_writes_str demo_writes_key = Some [(''writes'', PStr ''corrupt'')] \<and>
   fst (put_writes demo_saver 5 ledger_writes_str cfg_A [(''a'', PInt 1)] ''t'' []) =
     Inl AttributeError \<and>
   read_pending_writes demo_saver ledger_without_writes demo_writes_key = Inr []"
  by code_simp

section \<open>list: the metadata filter\<close>

lemma filter_ok_True:
  "filter_ok md F = Inr True \<Longrightarrow> (k, v) \<in> set F \<Longrightarrow> py_get md k = Inr v"
proof (induction F)
  case Nil
  then show ?case by simp
next
  case (Cons kv F)
  obtain k' v' where kv: "kv = (k', v')" by (cases kv)
  from Cons.prems(1) obtain x where
    x: "py_get md k' = Inr x" and r: "(if x \<noteq> v' then Inr False else filter_ok md F) = Inr True"
    by (auto simp: kv ebind_eq_Inr)
  from r have xv: "x = v'" and f: "filter_ok md F = Inr True"
    by (auto split: if_splits)
  show ?case
  proof (cases "(k, v) = kv")
    case True
    with kv x xv show ?thesis by simp
  next
    case False
    with Cons.prems(2) have "(k, v) \<in> set F" by simp
    with f show ?thesis by (rule Cons.IH)
  qed
qed

lemma list_loop_filter:
  assumes "tpl \<in> set (fst (list_loop sv c t n (Some F) limit yielded items))"
    and "(k, v) \<in> set F"
  shows "py_get (ct_metadata tpl) k = Inr v"
  using assms
proof (induction items arbitrary: yielded)
  case Nil
  then show ?case by simp
next
  case (Cons it items)
  obtain ts cid where it: "it = (ts, cid)" by (cases it)
  have ne: "F \<noteq> []" using Cons.prems(2) by auto
  show ?case
  proof (cases "case limit of None \<Rightarrow> False | Some l \<Rightarrow> int yielded \<ge> l")
    case True
    with Cons.prems(1) show ?thesis by (simp add: it)
  next
    case False
    note lim = False
    show ?thesis
    proof (cases "get_tuple sv c (scope_config t n cid)")
      case (Inl e)
      with Cons.prems(1) lim show ?thesis by (simp add: it)
    next
      case (Inr r)
      show ?thesis
      proof (cases r)
        case None
        with Cons.prems(1) lim Inr
        have "tpl \<in> set (fst (list_loop sv c t n (Some F) limit yielded items))"
          by (simp add: it)
        then show ?thesis using Cons.prems(2) by (rule Cons.IH)
      next
        case (Some tp)
        show ?thesis
        proof (cases "filter_ok (ct_metadata tp) F")
          case (Inl e)
          with Cons.prems(1) lim Inr Some ne show ?thesis by (simp add: it)
        next
          case ok: (Inr b)
          show ?thesis
          proof (cases b)
            case False
            with Cons.prems(1) lim Inr Some ne ok
            have "tpl \<in> set (fst (list_loop sv c t n (Some F) limit yielded items))"
              by (simp add: it)
            then show ?thesis using Cons.prems(2) by (rule Cons.IH)
          next
            case True
            with Cons.prems(1) lim Inr Some ne ok
            have "tpl = tp \<or> tpl \<in> set (fst (list_loop sv c t n (Some F) limit (Suc yielded) items))"
              by (simp add: it Let_def)
            then show ?thesis
            proof
              assume "tpl = tp"
              with ok True Cons.prems(2) show ?thesis by (simp add: filter_ok_True)
            next
              assume "tpl \<in> set (fst (list_loop sv c t n (Some F) limit (Suc yielded) items))"
              then show ?thesis using Cons.prems(2) by (rule Cons.IH)
            qed
          qed
        qed
      qed
    qed
  qed
qed

text \<open>
  C9, as stated, says that a checkpoint whose metadata lacks a key of the filter is
  excluded whatever value the filter has for the key. The code compares
  \<open>tpl.metadata.get(k)\<close> with the value, and \<open>get\<close> gives \<open>None\<close> for a missing key: with
  the filter \<open>{"source": None}\<close>, the checkpoint \<open>A\<close>, whose metadata is empty, is
  yielded.
\<close>

theorem list_filter_none_counterexample:
  "map ct_metadata
     (fst (list_checkpoints demo_saver demo_c1 (Some cfg_base) (Some [(''source'', PNone)])
             None None)) = [PDict []] \<and>
   py_item (PDict []) ''source'' = Inl KeyError"
  by code_simp

text \<open>
  C9, amended. Every tuple \<open>list\<close> yields under a filter \<open>F\<close> has a dict as metadata,
  and for every item \<open>(k, v)\<close> of \<open>F\<close> the value \<open>metadata.get(k)\<close> equals \<open>v\<close>, a
  missing key reading as \<open>None\<close>. So a checkpoint that differs from \<open>F\<close> on a key is
  excluded, and one whose metadata lacks the key is excluded unless the value of \<open>F\<close>
  for the key is \<open>None\<close>.
\<close>

theorem list_filter_exact_match:
  assumes "tpl \<in> set (fst (list_checkpoints sv c cfg (Some F) before_cfg limit))"
    and "(k, v) \<in> set F"
  shows "\<exists>md. ct_metadata tpl = PDict md \<and> dict_get md k = v \<and>
              (map_of md k = None \<longrightarrow> v = PNone)"
proof -
  from assms(1) obtain t n items y where
    "tpl \<in> set (fst (list_loop sv c t n (Some F) limit y items))"
    by (auto simp: list_checkpoints_def split: sum.splits prod.splits)
  then have g: "py_get (ct_metadata tpl) k = Inr v"
    using assms(2) by (rule list_loop_filter)
  then obtain md where md: "ct_metadata tpl = PDict md"
    by (cases "ct_metadata tpl") simp_all
  with g have "dict_get md k = v" by simp
  moreover from this have "map_of md k = None \<longrightarrow> v = PNone"
    by (auto simp: dict_get_def)
  ultimately show ?thesis using md by simp
qed

theorem list_filter_exact_match_witness:
  "fst (list_checkpoints demo_saver demo_m2 (Some cfg_base) (Some [(''source'', PStr ''loop'')])
          None None) = [tuple_B] \<and>
   (\<exists>md. ct_metadata tuple_B = PDict md \<and> dict_get md ''source'' = PStr ''loop'')"
proof -
  have l: "fst (list_checkpoints demo_saver demo_m2 (Some cfg_base)
                  (Some [(''source'', PStr ''loop'')]) None None) = [tuple_B]"
    by code_simp
  then have m: "tuple_B \<in> set (fst (list_checkpoints demo_saver demo_m2 (Some cfg_base)
                  (Some [(''source'', PStr ''loop'')]) None None))"
    by simp
  have k: "(''source'', PStr ''loop'') \<in> set [(''source'', PStr ''loop'')]"
    by simp
  from list_filter_exact_match [OF m k] l show ?thesis by blast
qed

section \<open>list: the entries before a checkpoint\<close>

lemma ids_from_config_truthy:
  "ids_from_config cfg = Inr (t, n, i) \<Longrightarrow> truthy t"
  by (auto simp: ids_from_config_def ebind_eq_Inr Let_def split: if_splits)

lemma tuple_of_record_config:
  "tuple_of_record sv c t n i bins = Inr (Some tpl) \<Longrightarrow> ct_config tpl = scope_config t n i"
  by (auto simp: tuple_of_record_def Let_def ebind_eq_Inr split: if_splits sum.splits)

lemma get_tuple_config:
  assumes "get_tuple sv c cfg = Inr (Some tpl)"
    and "ids_from_config cfg = Inr (t, n, i)"
    and "i \<noteq> PNone"
  shows "ct_config tpl = scope_config t n i"
  using assms
  by (auto simp: get_tuple_def resolve_checkpoint_id_def ebind_eq_Inr
      dest: tuple_of_record_config split: option.splits)

lemma tuple_checkpoint_id_scope [simp]:
  "ct_config tpl = scope_config t n i \<Longrightarrow> tuple_checkpoint_id tpl = i"
  by (simp add: tuple_checkpoint_id_def scope_config_def dict_get_def)

lemma is_str_not_None: "is_str v \<Longrightarrow> v \<noteq> PNone"
  by auto

lemma list_loop_ids:
  assumes "tpl \<in> set (fst (list_loop sv c t n flt limit yielded items))"
    and "truthy t"
    and "\<forall>it\<in>set items. snd it \<noteq> PNone"
  shows "tuple_checkpoint_id tpl \<in> snd ` set items"
  using assms
proof (induction items arbitrary: yielded)
  case Nil
  then show ?case by simp
next
  case (Cons it items)
  obtain ts cid where it: "it = (ts, cid)" by (cases it)
  have rest: "\<forall>it\<in>set items. snd it \<noteq> PNone" using Cons.prems(3) by simp
  have cid: "cid \<noteq> PNone" using Cons.prems(3) by (simp add: it)
  have step: "tuple_checkpoint_id tpl \<in> snd ` set items \<Longrightarrow> ?case"
    by simp
  from Cons.prems(1) consider
    (here) tp where "get_tuple sv c (scope_config t n cid) = Inr (Some tp)" "tpl = tp"
    | (later) y where "tpl \<in> set (fst (list_loop sv c t n flt limit y items))"
    by (auto simp: it Let_def split: if_splits sum.splits option.splits)
  then show ?case
  proof cases
    case here
    from get_tuple_config [OF here(1) ids_scope_config [OF Cons.prems(2)] cid]
    have "tuple_checkpoint_id tp = cid" by simp
    with here(2) show ?thesis by (simp add: it)
  next
    case later
    then have "tuple_checkpoint_id tpl \<in> snd ` set items"
      using Cons.prems(2) rest by (rule Cons.IH)
    then show ?thesis by (rule step)
  qed
qed

lemma before_loop_seen [simp]: "before_loop b True items = items"
  by (induction items) auto

lemma before_loop_absent:
  "b \<notin> snd ` set items \<Longrightarrow> before_loop b False items = []"
  by (induction items) (auto simp: image_iff)

lemma before_loop_split:
  "b \<notin> snd ` set pre \<Longrightarrow> before_loop b False (pre @ (ts, b) # post) = post"
  by (induction pre) (auto simp: image_iff)

lemma first_occurrence:
  "b \<in> snd ` set items \<Longrightarrow>
   \<exists>pre ts post. items = pre @ (ts, b) # post \<and> b \<notin> snd ` set pre"
proof (induction items)
  case Nil
  then show ?case by simp
next
  case (Cons it items)
  obtain ts cid where it: "it = (ts, cid)" by (cases it)
  show ?case
  proof (cases "cid = b")
    case True
    have "it # items = [] @ (ts, b) # items \<and> b \<notin> snd ` set []"
      by (simp add: it True)
    then show ?thesis by blast
  next
    case False
    with Cons.prems have "b \<in> snd ` set items" by (simp add: it)
    from Cons.IH [OF this] obtain pre ts' post where
      s: "items = pre @ (ts', b) # post" and n: "b \<notin> snd ` set pre" by blast
    have "it # items = (it # pre) @ (ts', b) # post \<and> b \<notin> snd ` set (it # pre)"
      using s n False by (simp add: it)
    then show ?thesis by blast
  qed
qed

text \<open>
  C5. \<open>list\<close> with \<open>before\<close> naming the checkpoint id \<open>X\<close>: every tuple yielded carries
  an id that stands in the timeline strictly after the first entry of \<open>X\<close>; in a
  timeline that holds every id once (as \<open>put\<close> keeps it) no tuple yielded carries \<open>X\<close>
  itself; and when \<open>X\<close> is not in the timeline, nothing is yielded and nothing is
  raised. The configurations resolve and the backend answers the read of the timeline.
\<close>

theorem list_before_strictly_after:
  assumes ids: "ids_from_config (case cfg of None \<Rightarrow> [] | Some d \<Rightarrow> d) =
                  Inr (thread_id, checkpoint_ns, u)"
    and rd: "read_timeline_items sv c (key_timeline sv thread_id checkpoint_ns) = Inr items"
    and bid: "ids_from_config b = Inr (bt, bn, X)"
    and tx: "truthy X"
  shows "(\<forall>tpl\<in>set (fst (list_checkpoints sv c cfg flt (Some b) limit)).
            \<exists>pre ts post. items = pre @ (ts, X) # post \<and> X \<notin> snd ` set pre \<and>
                          tuple_checkpoint_id tpl \<in> snd ` set post) \<and>
         (distinct (map snd items) \<longrightarrow>
            (\<forall>tpl\<in>set (fst (list_checkpoints sv c cfg flt (Some b) limit)).
               tuple_checkpoint_id tpl \<noteq> X)) \<and>
         (X \<notin> snd ` set items \<longrightarrow>
            list_checkpoints sv c cfg flt (Some b) limit = ([], None))"
proof -
  have lc: "list_checkpoints sv c cfg flt (Some b) limit =
              list_loop sv c thread_id checkpoint_ns flt limit 0 (before_loop X False items)"
    using ids rd bid tx by (simp add: list_checkpoints_def)
  have tt: "truthy thread_id"
    using ids by (rule ids_from_config_truthy)
  have strs: "\<forall>it\<in>set items. snd it \<noteq> PNone"
    using read_timeline_items_str [OF rd] is_str_not_None by blast
  have after: "\<exists>pre ts post. items = pre @ (ts, X) # post \<and> X \<notin> snd ` set pre \<and>
                          tuple_checkpoint_id tpl \<in> snd ` set post"
    if m: "tpl \<in> set (fst (list_checkpoints sv c cfg flt (Some b) limit))" for tpl
  proof (cases "X \<in> snd ` set items")
    case False
    then have "before_loop X False items = []" by (rule before_loop_absent)
    with m lc show ?thesis by simp
  next
    case True
    from first_occurrence [OF this] obtain pre ts post where
      s: "items = pre @ (ts, X) # post" and n: "X \<notin> snd ` set pre" by blast
    have bl: "before_loop X False items = post"
      unfolding s using n by (rule before_loop_split)
    have "\<forall>it\<in>set post. snd it \<noteq> PNone"
      using strs by (simp add: s)
    with m lc bl tt have "tuple_checkpoint_id tpl \<in> snd ` set post"
      using list_loop_ids [of tpl sv c thread_id checkpoint_ns flt limit 0 post] by simp
    with s n show ?thesis by blast
  qed
  have notX: "tuple_checkpoint_id tpl \<noteq> X"
    if m: "tpl \<in> set (fst (list_checkpoints sv c cfg flt (Some b) limit))"
      and d: "distinct (map snd items)" for tpl
  proof -
    from after [OF m] obtain pre ts post where
      s: "items = pre @ (ts, X) # post" and p: "tuple_checkpoint_id tpl \<in> snd ` set post"
      by blast
    from d have "X \<notin> snd ` set post"
      by (simp add: s)
    with p show ?thesis by metis
  qed
  have empty: "list_checkpoints sv c cfg flt (Some b) limit = ([], None)"
    if "X \<notin> snd ` set items"
    using lc before_loop_absent [OF that] by simp
  show ?thesis
    using after notX empty by blast
qed


theorem list_before_strictly_after_witness:
  "read_timeline_items demo_saver demo_after_calls demo_timeline_key =
     Inr [(PInt 7, PStr ''C''), (PInt 6, PStr ''B'')] \<and>
   map tuple_checkpoint_id
     (fst (list_checkpoints demo_saver demo_after_calls (Some cfg_base) None (Some cfg_C) None)) =
     [PStr ''B''] \<and>
   list_checkpoints demo_saver demo_after_calls (Some cfg_base) None (Some cfg_A) None =
     ([], None)"
proof -
  have ids: "ids_from_config (case Some cfg_base of None \<Rightarrow> [] | Some d \<Rightarrow> d) =
               Inr (PStr ''1'', PStr ''demo'', PNone)"
    by simp
  have rd: "read_timeline_items demo_saver demo_after_calls
              (key_timeline demo_saver (PStr ''1'') (PStr ''demo'')) =
            Inr [(PInt 7, PStr ''C''), (PInt 6, PStr ''B'')]"
    by code_simp
  have iA: "ids_from_config cfg_A = Inr (PStr ''1'', PStr ''demo'', PStr ''A'')"
    by (simp add: cfg_A_def ids_scope_config py_or_def)
  have iC: "ids_from_config cfg_C = Inr (PStr ''1'', PStr ''demo'', PStr ''C'')"
    by (simp add: cfg_C_def ids_scope_config py_or_def)
  have tA: "truthy (PStr ''A'')" and tC: "truthy (PStr ''C'')"
    by simp_all
  have a: "list_checkpoints demo_saver demo_after_calls (Some cfg_base) None (Some cfg_A) None =
             ([], None)"
    using list_before_strictly_after [OF ids rd iA tA, of None None] by simp
  have "\<forall>tpl\<in>set (fst (list_checkpoints demo_saver demo_after_calls (Some cfg_base) None
                          (Some cfg_C) None)).
          tuple_checkpoint_id tpl \<noteq> PStr ''C''"
    using list_before_strictly_after [OF ids rd iC tC, of None None] by simp
  moreover have "map tuple_checkpoint_id
     (fst (list_checkpoints demo_saver demo_after_calls (Some cfg_base) None (Some cfg_C) None)) =
     [PStr ''B'']"
    by code_simp
  ultimately show ?thesis
    using a rd by (simp add: demo_timeline_key_def)
qed

section \<open>put\_writes: replace or append\<close>

lemma pair_of_new_item [simp]:
  "pair_of (new_item sv now_ts t p ch x v) = (PStr t, PInt x)"
  by (simp add: pair_of_def new_item_def dict_get_def)

lemma py_get_pair:
  "py_get item ''task_id'' = Inr a \<Longrightarrow> py_get item ''idx'' = Inr b \<Longrightarrow> pair_of item = (a, b)"
  by (cases item) (auto simp: pair_of_def)

lemma find_replace_at_None:
  "find_replace_at its (PStr t) (PInt x) i = Inr None \<Longrightarrow> (PStr t, PInt x) \<notin> pair_of ` set its"
proof (induction its arbitrary: i)
  case Nil
  then show ?case by simp
next
  case (Cons item its)
  from Cons.prems obtain a where a: "py_get item ''task_id'' = Inr a"
    by (auto simp: ebind_eq_Inr)
  then obtain d where d: "item = PDict d" by (cases item) simp_all
  from Cons.prems have
    ne: "pair_of item \<noteq> (PStr t, PInt x)" and
    r: "find_replace_at its (PStr t) (PInt x) (Suc i) = Inr None"
    by (auto simp: d pair_of_def split: if_splits)
  from Cons.IH [OF r] ne show ?case by auto
qed

lemma find_replace_at_Some:
  "find_replace_at its (PStr t) (PInt x) i = Inr (Some j) \<Longrightarrow>
   i \<le> j \<and> j - i < length its \<and> pair_of (its ! (j - i)) = (PStr t, PInt x) \<and>
   (\<forall>m<j - i. pair_of (its ! m) \<noteq> (PStr t, PInt x))"
proof (induction its arbitrary: i)
  case Nil
  then show ?case by simp
next
  case (Cons item its)
  from Cons.prems obtain a where a: "py_get item ''task_id'' = Inr a"
    by (auto simp: ebind_eq_Inr)
  then obtain d where d: "item = PDict d" by (cases item) simp_all
  show ?case
  proof (cases "pair_of item = (PStr t, PInt x)")
    case True
    with Cons.prems have "j = i"
      by (auto simp: d pair_of_def split: if_splits)
    with True show ?thesis by simp
  next
    case False
    with Cons.prems have r: "find_replace_at its (PStr t) (PInt x) (Suc i) = Inr (Some j)"
      by (auto simp: d pair_of_def split: if_splits)
    from Cons.IH [OF r] have
      le: "Suc i \<le> j" and lt: "j - Suc i < length its"
      and p: "pair_of (its ! (j - Suc i)) = (PStr t, PInt x)"
      and n: "\<forall>m<j - Suc i. pair_of (its ! m) \<noteq> (PStr t, PInt x)"
      by simp_all
    from le have ji: "j - i = Suc (j - Suc i)" by simp
    have "\<forall>m<j - i. pair_of ((item # its) ! m) \<noteq> (PStr t, PInt x)"
    proof (intro allI impI)
      fix m assume "m < j - i"
      then show "pair_of ((item # its) ! m) \<noteq> (PStr t, PInt x)"
        using False n ji by (cases m) simp_all
    qed
    with le lt p ji show ?thesis by simp
  qed
qed

text \<open>One step of the loop on a list: the entry replaces the first one with its pair, or is appended.\<close>

lemma write_step_list:
  assumes "write_step sv now_ts t p (PList L) idx ch v = Inr r"
  shows "(\<exists>i<length L. pair_of (L ! i) = (PStr t, PInt (idx_val_of sv ch idx)) \<and>
            r = PList (L[i := new_item sv now_ts t p ch (idx_val_of sv ch idx) v])) \<or>
         ((PStr t, PInt (idx_val_of sv ch idx)) \<notin> pair_of ` set L \<and>
            r = PList (L @ [new_item sv now_ts t p ch (idx_val_of sv ch idx) v]))"
proof (cases "find_replace_at L (PStr t) (PInt (idx_val_of sv ch idx)) 0")
  case (Inl e)
  with assms show ?thesis by (simp add: write_step_def Let_def)
next
  case (Inr ra)
  show ?thesis
  proof (cases ra)
    case None
    with Inr assms find_replace_at_None [of L t "idx_val_of sv ch idx" 0] show ?thesis
      by (simp add: write_step_def Let_def)
  next
    case (Some i)
    with Inr find_replace_at_Some [of L t "idx_val_of sv ch idx" 0 i]
    have "i < length L" and "pair_of (L ! i) = (PStr t, PInt (idx_val_of sv ch idx))"
      by simp_all
    with Inr Some assms show ?thesis
      by (auto simp: write_step_def Let_def)
  qed
qed

lemma write_step_not_list:
  "write_step sv now_ts t p e idx ch v = Inr r \<Longrightarrow> \<exists>L. e = PList L"
proof (cases e)
  case (PList L)
  then show ?thesis by simp
qed (auto simp: write_step_def Let_def ebind_eq_Inr split: option.splits
      dest!: find_replace_at_Some find_replace_at_None)


lemma write_step_props:
  assumes st: "write_step sv now_ts t p (PList L) idx ch v = Inr r"
    and d: "distinct (map pair_of L)"
  shows "\<exists>L1. r = PList L1 \<and> distinct (map pair_of L1) \<and> length L \<le> length L1 \<and>
           (\<forall>i<length L. pair_of (L1 ! i) = pair_of (L ! i) \<and>
              (pair_of (L ! i) \<noteq> (PStr t, PInt (idx_val_of sv ch idx)) \<longrightarrow> L1 ! i = L ! i)) \<and>
           (\<exists>q<length L1. L1 ! q = new_item sv now_ts t p ch (idx_val_of sv ch idx) v)"
proof -
  let ?item = "new_item sv now_ts t p ch (idx_val_of sv ch idx) v"
  let ?pr = "(PStr t, PInt (idx_val_of sv ch idx))"
  from write_step_list [OF st] show ?thesis
  proof
    assume "\<exists>i<length L. pair_of (L ! i) = ?pr \<and> r = PList (L[i := ?item])"
    then obtain i where i: "i < length L" and pi: "pair_of (L ! i) = ?pr"
      and r: "r = PList (L[i := ?item])" by blast
    have m: "map pair_of (L[i := ?item]) = map pair_of L"
      using i pi by (simp add: map_update list_update_same_conv)
    have "\<forall>k<length L. pair_of (L[i := ?item] ! k) = pair_of (L ! k) \<and>
              (pair_of (L ! k) \<noteq> ?pr \<longrightarrow> L[i := ?item] ! k = L ! k)"
      using i pi by (auto simp: nth_list_update)
    moreover have "\<exists>q<length (L[i := ?item]). L[i := ?item] ! q = ?item"
      using i by (intro exI [of _ i]) simp
    ultimately show ?thesis
      using r d m by (intro exI [of _ "L[i := ?item]"]) simp
  next
    assume a: "?pr \<notin> pair_of ` set L \<and> r = PList (L @ [?item])"
    have "\<forall>k<length L. pair_of ((L @ [?item]) ! k) = pair_of (L ! k) \<and>
              (pair_of (L ! k) \<noteq> ?pr \<longrightarrow> (L @ [?item]) ! k = L ! k)"
      by (simp add: nth_append)
    moreover have "\<exists>q<length (L @ [?item]). (L @ [?item]) ! q = ?item"
      by (intro exI [of _ "length L"]) simp
    moreover have "distinct (map pair_of (L @ [?item]))"
      using a d by simp
    ultimately show ?thesis
      using a by (intro exI [of _ "L @ [?item]"]) simp
  qed
qed

lemma writes_loop_spec:
  assumes "writes_loop sv now_ts t p (PList L) i0 ws = Inr r"
    and "distinct (map pair_of L)"
  shows "\<exists>L'. r = PList L' \<and> distinct (map pair_of L') \<and> length L \<le> length L' \<and>
     (\<forall>i<length L. pair_of (L' ! i) = pair_of (L ! i) \<and>
         ((\<forall>j<length ws. pair_of (L ! i) \<noteq>
                (PStr t, PInt (idx_val_of sv (fst (ws ! j)) (i0 + j)))) \<longrightarrow> L' ! i = L ! i)) \<and>
     (\<forall>j<length ws.
         (\<forall>j'. j < j' \<and> j' < length ws \<longrightarrow>
               idx_val_of sv (fst (ws ! j')) (i0 + j') \<noteq> idx_val_of sv (fst (ws ! j)) (i0 + j)) \<longrightarrow>
         new_item sv now_ts t p (fst (ws ! j)) (idx_val_of sv (fst (ws ! j)) (i0 + j))
           (snd (ws ! j)) \<in> set L')"
  using assms
proof (induction ws arbitrary: L i0)
  case Nil
  then show ?case by (intro exI [of _ L]) auto
next
  case (Cons w ws)
  obtain ch v where w: "w = (ch, v)" by (cases w)
  let ?pr = "(PStr t, PInt (idx_val_of sv ch i0))"
  let ?item = "new_item sv now_ts t p ch (idx_val_of sv ch i0) v"
  from Cons.prems(1) obtain r1 where
    st: "write_step sv now_ts t p (PList L) i0 ch v = Inr r1"
    and lp: "writes_loop sv now_ts t p r1 (Suc i0) ws = Inr r"
    by (auto simp: w ebind_eq_Inr)
  from write_step_props [OF st Cons.prems(2)] obtain L1 q where
    r1: "r1 = PList L1" and d1: "distinct (map pair_of L1)" and l1: "length L \<le> length L1"
    and pos1: "\<forall>i<length L. pair_of (L1 ! i) = pair_of (L ! i) \<and>
                 (pair_of (L ! i) \<noteq> ?pr \<longrightarrow> L1 ! i = L ! i)"
    and q: "q < length L1" "L1 ! q = ?item"
    by blast
  from Cons.IH [OF lp [unfolded r1] d1] obtain L' where
    r: "r = PList L'" and d': "distinct (map pair_of L')" and l': "length L1 \<le> length L'"
    and pos': "\<forall>i<length L1. pair_of (L' ! i) = pair_of (L1 ! i) \<and>
         ((\<forall>j<length ws. pair_of (L1 ! i) \<noteq>
                (PStr t, PInt (idx_val_of sv (fst (ws ! j)) (Suc i0 + j)))) \<longrightarrow> L' ! i = L1 ! i)"
    and mem': "\<forall>j<length ws.
         (\<forall>j'. j < j' \<and> j' < length ws \<longrightarrow>
               idx_val_of sv (fst (ws ! j')) (Suc i0 + j') \<noteq> idx_val_of sv (fst (ws ! j)) (Suc i0 + j)) \<longrightarrow>
         new_item sv now_ts t p (fst (ws ! j)) (idx_val_of sv (fst (ws ! j)) (Suc i0 + j))
           (snd (ws ! j)) \<in> set L'"
    by blast
  have pos: "pair_of (L' ! i) = pair_of (L ! i) \<and>
         ((\<forall>j<length (w # ws). pair_of (L ! i) \<noteq>
                (PStr t, PInt (idx_val_of sv (fst ((w # ws) ! j)) (i0 + j)))) \<longrightarrow> L' ! i = L ! i)"
    if i: "i < length L" for i
  proof
    from i l1 have i1: "i < length L1" by simp
    from pos1 i have a: "pair_of (L1 ! i) = pair_of (L ! i)" by simp
    from pos' i1 have b: "pair_of (L' ! i) = pair_of (L1 ! i)" by simp
    from a b show "pair_of (L' ! i) = pair_of (L ! i)" by simp
    show "(\<forall>j<length (w # ws). pair_of (L ! i) \<noteq>
                (PStr t, PInt (idx_val_of sv (fst ((w # ws) ! j)) (i0 + j)))) \<longrightarrow> L' ! i = L ! i"
    proof
      assume un: "\<forall>j<length (w # ws). pair_of (L ! i) \<noteq>
                (PStr t, PInt (idx_val_of sv (fst ((w # ws) ! j)) (i0 + j)))"
      from un [rule_format, of 0] have "pair_of (L ! i) \<noteq> ?pr" by (simp add: w)
      with pos1 i have e1: "L1 ! i = L ! i" by simp
      have "\<forall>j<length ws. pair_of (L1 ! i) \<noteq>
                (PStr t, PInt (idx_val_of sv (fst (ws ! j)) (Suc i0 + j)))"
      proof (intro allI impI)
        fix j assume "j < length ws"
        with un [rule_format, of "Suc j"] show "pair_of (L1 ! i) \<noteq>
                (PStr t, PInt (idx_val_of sv (fst (ws ! j)) (Suc i0 + j)))"
          by (simp add: e1)
      qed
      with pos' i1 have "L' ! i = L1 ! i" by simp
      with e1 show "L' ! i = L ! i" by simp
    qed
  qed
  have mem: "new_item sv now_ts t p (fst ((w # ws) ! j))
               (idx_val_of sv (fst ((w # ws) ! j)) (i0 + j)) (snd ((w # ws) ! j)) \<in> set L'"
    if j: "j < length (w # ws)"
      and last: "\<forall>j'. j < j' \<and> j' < length (w # ws) \<longrightarrow>
               idx_val_of sv (fst ((w # ws) ! j')) (i0 + j') \<noteq>
               idx_val_of sv (fst ((w # ws) ! j)) (i0 + j)" for j
  proof (cases j)
    case 0
    have "\<forall>k<length ws. pair_of (L1 ! q) \<noteq>
                (PStr t, PInt (idx_val_of sv (fst (ws ! k)) (Suc i0 + k)))"
    proof (intro allI impI)
      fix k assume "k < length ws"
      with last [rule_format, of "Suc k"] 0 show "pair_of (L1 ! q) \<noteq>
                (PStr t, PInt (idx_val_of sv (fst (ws ! k)) (Suc i0 + k)))"
        by (simp add: q w)
    qed
    with pos' q have "L' ! q = ?item" by simp
    moreover from q l' have "q < length L'" by simp
    ultimately have "?item \<in> set L'" by (metis nth_mem)
    with 0 show ?thesis by (simp add: w)
  next
    case (Suc k)
    with j have k: "k < length ws" by simp
    have "\<forall>j'. k < j' \<and> j' < length ws \<longrightarrow>
               idx_val_of sv (fst (ws ! j')) (Suc i0 + j') \<noteq> idx_val_of sv (fst (ws ! k)) (Suc i0 + k)"
    proof (intro allI impI)
      fix j' assume "k < j' \<and> j' < length ws"
      with last [rule_format, of "Suc j'"] Suc show
        "idx_val_of sv (fst (ws ! j')) (Suc i0 + j') \<noteq> idx_val_of sv (fst (ws ! k)) (Suc i0 + k)"
        by simp
    qed
    with mem' k have "new_item sv now_ts t p (fst (ws ! k)) (idx_val_of sv (fst (ws ! k)) (Suc i0 + k))
           (snd (ws ! k)) \<in> set L'" by simp
    with Suc show ?thesis by simp
  qed
  from l1 l' have len: "length L \<le> length L'" by simp
  show ?case
    apply (rule exI [of _ L'])
    apply (intro conjI allI impI)
    apply (rule r)
    apply (rule d')
    apply (rule len)
    using pos apply blast
    using pos apply blast
    using mem apply blast
    done
qed


lemma writes_loop_not_list:
  "writes_loop sv now_ts t p e i0 ws = Inr r \<Longrightarrow> ws \<noteq> [] \<Longrightarrow> \<exists>L. e = PList L"
  by (cases ws) (auto simp: ebind_eq_Inr dest: write_step_not_list)

lemma filter_distinct_single:
  "distinct (map f xs) \<Longrightarrow> x \<in> set xs \<Longrightarrow> filter (\<lambda>y. f y = f x) xs = [x]"
proof (induction xs)
  case Nil
  then show ?case by simp
next
  case (Cons a xs)
  show ?case
  proof (cases "a = x")
    case True
    with Cons.prems(1) have "\<forall>y\<in>set xs. f y \<noteq> f x" by (metis distinct.simps(2) imageI list.simps(9) set_map)
    then have "filter (\<lambda>y. f y = f x) xs = []" by (simp add: filter_empty_conv)
    with True show ?thesis by simp
  next
    case False
    with Cons.prems have x: "x \<in> set xs" by simp
    with Cons.prems(1) have "f a \<noteq> f x" by (metis distinct.simps(2) imageI list.simps(9) set_map)
    moreover from Cons.prems(1) x have "filter (\<lambda>y. f y = f x) xs = [x]"
      by (intro Cons.IH) simp_all
    ultimately show ?thesis by simp
  qed
qed

lemma put_writes_InrD:
  assumes "put_writes sv now_ts c cfg writes task_id task_path = (Inr (), c')"
    and "writes \<noteq> []"
    and "ids_from_config cfg = Inr (thread_id, checkpoint_ns, checkpoint_id)"
    and "truthy checkpoint_id"
  shows "\<exists>items.
           writes_loop sv now_ts task_id task_path
             (case recs c (key_writes sv thread_id checkpoint_ns checkpoint_id) of
                None \<Rightarrow> PList [] | Some bins \<Rightarrow> dict_get bins ''writes'') 0 writes = Inr items \<and>
           c' = c\<lparr>recs := (recs c)(key_writes sv thread_id checkpoint_ns checkpoint_id \<mapsto>
                                     [(''writes'', items)])\<rparr>"
  using assms
  by (auto simp: put_writes_def Let_def get_record_def put_record_def
      split: if_splits sum.splits)

text \<open>
  C4. A \<open>put_writes\<close> call that returns, on a ledger that holds every pair (task id,
  ordering index) at most once, stores a ledger that again holds every pair at most
  once. The entry of the write at position \<open>j\<close> has the task id of the call and, as
  ordering index, the value of \<open>WRITES_IDX_MAP\<close> for its channel, or \<open>j\<close> when the
  channel is not in the table; unless a later write of the same call has the same
  ordering index, it is the one entry of the ledger for its pair, so a second call
  for a pair leaves one entry with the second value. Every entry of the old ledger
  keeps its position and its pair, and is unchanged when no write of the call has its
  pair: a new pair is appended and disturbs nothing.
\<close>

theorem put_writes_replaces_or_appends:
  assumes pw: "put_writes sv now_ts c cfg writes task_id task_path = (Inr (), c')"
    and ne: "writes \<noteq> []"
    and ids: "ids_from_config cfg = Inr (thread_id, checkpoint_ns, checkpoint_id)"
    and tc: "truthy checkpoint_id"
    and d: "distinct (map pair_of
              (ledger_items c (key_writes sv thread_id checkpoint_ns checkpoint_id)))"
  shows "\<exists>L'.
     recs c' (key_writes sv thread_id checkpoint_ns checkpoint_id) = Some [(''writes'', PList L')] \<and>
     distinct (map pair_of L') \<and>
     length (ledger_items c (key_writes sv thread_id checkpoint_ns checkpoint_id)) \<le> length L' \<and>
     (\<forall>i<length (ledger_items c (key_writes sv thread_id checkpoint_ns checkpoint_id)).
        pair_of (L' ! i) =
          pair_of (ledger_items c (key_writes sv thread_id checkpoint_ns checkpoint_id) ! i) \<and>
        ((\<forall>j<length writes.
            pair_of (ledger_items c (key_writes sv thread_id checkpoint_ns checkpoint_id) ! i) \<noteq>
              write_pair sv task_id writes j) \<longrightarrow>
         L' ! i = ledger_items c (key_writes sv thread_id checkpoint_ns checkpoint_id) ! i)) \<and>
     (\<forall>j<length writes.
        pair_of (write_item sv now_ts task_id task_path writes j) =
          (PStr task_id,
           PInt (case WRITES_IDX_MAP sv (fst (writes ! j)) of Some n \<Rightarrow> n | None \<Rightarrow> int j)) \<and>
        py_get (write_item sv now_ts task_id task_path writes j) ''value'' =
          Inr (snd (dumps_typed sv (snd (writes ! j)))) \<and>
        ((\<forall>j'. j < j' \<and> j' < length writes \<longrightarrow>
             write_pair sv task_id writes j' \<noteq> write_pair sv task_id writes j) \<longrightarrow>
         filter (\<lambda>it. pair_of it = write_pair sv task_id writes j) L' =
           [write_item sv now_ts task_id task_path writes j]))"
proof -
  let ?k = "key_writes sv thread_id checkpoint_ns checkpoint_id"
  let ?e = "case recs c ?k of None \<Rightarrow> PList [] | Some bins \<Rightarrow> dict_get bins ''writes''"
  from put_writes_InrD [OF pw ne ids tc] obtain items where
    wl: "writes_loop sv now_ts task_id task_path ?e 0 writes = Inr items"
    and c': "c' = c\<lparr>recs := (recs c)(?k \<mapsto> [(''writes'', items)])\<rparr>"
    by blast
  from writes_loop_not_list [OF wl ne] obtain L where e: "?e = PList L" by blast
  then have L: "ledger_items c ?k = L"
    by (auto simp: ledger_items_def split: option.splits)
  from writes_loop_spec [OF wl [unfolded e] d [unfolded L]] obtain L' where
    r: "items = PList L'" and d': "distinct (map pair_of L')" and len: "length L \<le> length L'"
    and pos: "\<forall>i<length L. pair_of (L' ! i) = pair_of (L ! i) \<and>
         ((\<forall>j<length writes. pair_of (L ! i) \<noteq>
                (PStr task_id, PInt (idx_val_of sv (fst (writes ! j)) (0 + j)))) \<longrightarrow> L' ! i = L ! i)"
    and mem: "\<forall>j<length writes.
         (\<forall>j'. j < j' \<and> j' < length writes \<longrightarrow>
               idx_val_of sv (fst (writes ! j')) (0 + j') \<noteq> idx_val_of sv (fst (writes ! j)) (0 + j)) \<longrightarrow>
         new_item sv now_ts task_id task_path (fst (writes ! j))
           (idx_val_of sv (fst (writes ! j)) (0 + j)) (snd (writes ! j)) \<in> set L'"
    by blast
  have rec: "recs c' ?k = Some [(''writes'', PList L')]"
    by (simp add: c' r)
  have pos2: "\<forall>i<length L. pair_of (L' ! i) = pair_of (L ! i) \<and>
        ((\<forall>j<length writes. pair_of (L ! i) \<noteq> write_pair sv task_id writes j) \<longrightarrow> L' ! i = L ! i)"
    using pos by (simp add: write_pair_def)
  have one: "pair_of (write_item sv now_ts task_id task_path writes j) =
          (PStr task_id,
           PInt (case WRITES_IDX_MAP sv (fst (writes ! j)) of Some n \<Rightarrow> n | None \<Rightarrow> int j)) \<and>
        py_get (write_item sv now_ts task_id task_path writes j) ''value'' =
          Inr (snd (dumps_typed sv (snd (writes ! j)))) \<and>
        ((\<forall>j'. j < j' \<and> j' < length writes \<longrightarrow>
             write_pair sv task_id writes j' \<noteq> write_pair sv task_id writes j) \<longrightarrow>
         filter (\<lambda>it. pair_of it = write_pair sv task_id writes j) L' =
           [write_item sv now_ts task_id task_path writes j])"
    if j: "j < length writes" for j
  proof (intro conjI impI)
    show "pair_of (write_item sv now_ts task_id task_path writes j) =
          (PStr task_id,
           PInt (case WRITES_IDX_MAP sv (fst (writes ! j)) of Some n \<Rightarrow> n | None \<Rightarrow> int j))"
      by (simp add: write_item_def idx_val_of_def)
    show "py_get (write_item sv now_ts task_id task_path writes j) ''value'' =
          Inr (snd (dumps_typed sv (snd (writes ! j))))"
      by (simp add: write_item_def new_item_def dict_get_def)
    assume last: "\<forall>j'. j < j' \<and> j' < length writes \<longrightarrow>
             write_pair sv task_id writes j' \<noteq> write_pair sv task_id writes j"
    then have "\<forall>j'. j < j' \<and> j' < length writes \<longrightarrow>
               idx_val_of sv (fst (writes ! j')) (0 + j') \<noteq> idx_val_of sv (fst (writes ! j)) (0 + j)"
      by (simp add: write_pair_def)
    with mem j have m: "write_item sv now_ts task_id task_path writes j \<in> set L'"
      by (simp add: write_item_def)
    have p: "pair_of (write_item sv now_ts task_id task_path writes j) = write_pair sv task_id writes j"
      by (simp add: write_item_def write_pair_def)
    from filter_distinct_single [OF d' m]
    show "filter (\<lambda>it. pair_of it = write_pair sv task_id writes j) L' =
           [write_item sv now_ts task_id task_path writes j]"
      by (simp add: p)
  qed
  show ?thesis
    unfolding L
    apply (rule exI [of _ L'])
    apply (intro conjI)
    apply (rule rec)
    apply (rule d')
    apply (rule len)
    apply (rule pos2)
    using one apply blast
    done
qed


theorem put_writes_replaces_or_appends_witness:
  "ledger_items demo_w1 demo_writes_key = [new_item demo_saver 5 ''t'' [] ''a'' 0 (PInt 1)] \<and>
   ledger_items demo_w2 demo_writes_key =
     [new_item demo_saver 6 ''t'' [] ''a'' 0 (PInt 2),
      new_item demo_saver 6 ''t'' [] ''__error__'' (- 1) (PInt 3)] \<and>
   filter (\<lambda>it. pair_of it = (PStr ''t'', PInt 0)) (ledger_items demo_w2 demo_writes_key) =
     [new_item demo_saver 6 ''t'' [] ''a'' 0 (PInt 2)]"
proof -
  let ?k = "key_writes demo_saver (PStr ''1'') (PStr ''demo'') (PStr ''A'')"
  have l1: "ledger_items demo_w1 demo_writes_key = [new_item demo_saver 5 ''t'' [] ''a'' 0 (PInt 1)]"
    by code_simp
  have l2: "ledger_items demo_w2 demo_writes_key =
     [new_item demo_saver 6 ''t'' [] ''a'' 0 (PInt 2),
      new_item demo_saver 6 ''t'' [] ''__error__'' (- 1) (PInt 3)]"
    by code_simp
  have "fst (put_writes demo_saver 6 demo_w1 cfg_A writes_2 ''t'' []) = Inr ()"
    by code_simp
  then have pw: "put_writes demo_saver 6 demo_w1 cfg_A writes_2 ''t'' [] = (Inr (), demo_w2)"
    by (simp add: prod_eq_iff demo_w2_def)
  have ne: "writes_2 \<noteq> []"
    by (simp add: writes_2_def)
  have ids: "ids_from_config cfg_A = Inr (PStr ''1'', PStr ''demo'', PStr ''A'')"
    by (simp add: cfg_A_def ids_scope_config py_or_def)
  have tc: "truthy (PStr ''A'')"
    by simp
  have d: "distinct (map pair_of (ledger_items demo_w1 ?k))"
    using l1 by (simp add: demo_writes_key_def)
  have p0: "write_pair demo_saver ''t'' writes_2 0 = (PStr ''t'', PInt 0)"
    by (simp add: write_pair_def writes_2_def idx_val_of_def demo_idx_map_def)
  have p1: "write_pair demo_saver ''t'' writes_2 (Suc 0) = (PStr ''t'', PInt (- 1))"
    by (simp add: write_pair_def writes_2_def idx_val_of_def demo_idx_map_def)
  have last: "\<forall>j'. 0 < j' \<and> j' < length writes_2 \<longrightarrow>
                write_pair demo_saver ''t'' writes_2 j' \<noteq> write_pair demo_saver ''t'' writes_2 0"
  proof (intro allI impI)
    fix j' assume "0 < j' \<and> j' < length writes_2"
    then have "j' = Suc 0" by (simp add: writes_2_def)
    then show "write_pair demo_saver ''t'' writes_2 j' \<noteq> write_pair demo_saver ''t'' writes_2 0"
      by (simp add: p0 p1)
  qed
  have w0: "write_item demo_saver 6 ''t'' [] writes_2 0 = new_item demo_saver 6 ''t'' [] ''a'' 0 (PInt 2)"
    by (simp add: write_item_def writes_2_def idx_val_of_def demo_idx_map_def)
  from put_writes_replaces_or_appends [OF pw ne ids tc d] obtain L' where
    rec: "recs demo_w2 ?k = Some [(''writes'', PList L')]"
    and each: "\<forall>j<length writes_2.
        pair_of (write_item demo_saver 6 ''t'' [] writes_2 j) =
          (PStr ''t'',
           PInt (case WRITES_IDX_MAP demo_saver (fst (writes_2 ! j)) of Some n \<Rightarrow> n | None \<Rightarrow> int j)) \<and>
        py_get (write_item demo_saver 6 ''t'' [] writes_2 j) ''value'' =
          Inr (snd (dumps_typed demo_saver (snd (writes_2 ! j)))) \<and>
        ((\<forall>j'. j < j' \<and> j' < length writes_2 \<longrightarrow>
             write_pair demo_saver ''t'' writes_2 j' \<noteq> write_pair demo_saver ''t'' writes_2 j) \<longrightarrow>
         filter (\<lambda>it. pair_of it = write_pair demo_saver ''t'' writes_2 j) L' =
           [write_item demo_saver 6 ''t'' [] writes_2 j])"
    by blast
  from rec have L': "ledger_items demo_w2 demo_writes_key = L'"
    by (simp add: ledger_items_def demo_writes_key_def dict_get_def)
  have "0 < length writes_2" by (simp add: writes_2_def)
  with each last have "filter (\<lambda>it. pair_of it = write_pair demo_saver ''t'' writes_2 0) L' =
           [write_item demo_saver 6 ''t'' [] writes_2 0]"
    by blast
  then have "filter (\<lambda>it. pair_of it = (PStr ''t'', PInt 0)) (ledger_items demo_w2 demo_writes_key) =
     [new_item demo_saver 6 ''t'' [] ''a'' 0 (PInt 2)]"
    by (simp add: p0 w0 L')
  with l1 l2 show ?thesis by simp
qed

end
